theory Spec2Isabelle
  imports Complex_Main "HOL-Library.Word" "HOL-Library.AList"
begin

unbundle bit_operations_syntax

section \<open>The spatial hash of \<open>spatial_hash.go\<close>\<close>

text \<open>
  The development embeds \<open>spatial_hash.go\<close>. The Go code is generic in the coordinate
  type \<open>N\<close> (any integer or floating-point type). The two operations of \<open>N\<close> on which the
  integer and the floating-point instances differ, the quotient \<open>a / b\<close> and the
  conversion \<open>float64(a)\<close>, are passed as a dictionary; addition, subtraction,
  multiplication, comparison and the constant \<open>N(2)\<close> are those of an ordered ring.

  Three instances of \<open>N\<close> are given. \<open>uint32Number\<close> is Go's \<open>uint32\<close> as it is: 32-bit
  words whose arithmetic wraps around. \<open>intNumber\<close> and \<open>floatNumber\<close> are exact numbers:
  a signed integer \<open>N\<close> as the type \<open>int\<close> with Go's quotient (truncated towards zero, a
  run-time panic when the divisor is zero), which is the Go type as long as nothing
  overflows, and a floating-point \<open>N\<close> as the type \<open>real\<close>, which leaves rounding out.
  Go's \<open>int\<close> (cell coordinates, bucket keys) is the type \<open>int\<close> as well; \<open>pairPoint64\<close>
  below is the same key function on 64-bit words.
\<close>

subsection \<open>The coordinate type \<open>N\<close>\<close>

record 'n Number =
  quo :: "'n \<Rightarrow> 'n \<Rightarrow> 'n option"
  float64 :: "'n \<Rightarrow> real"

text \<open>Go's integer quotient: truncated towards zero; division by zero panics (\<open>None\<close>).\<close>

definition truncDiv :: "int \<Rightarrow> int \<Rightarrow> int" where
  "truncDiv a b = (if (a < 0) = (b < 0) then \<bar>a\<bar> div \<bar>b\<bar> else - (\<bar>a\<bar> div \<bar>b\<bar>))"

definition intNumber :: "int Number" where
  "intNumber = \<lparr> quo = (\<lambda>a b. if b = 0 then None else Some (truncDiv a b)),
                 float64 = real_of_int \<rparr>"

text \<open>
  The floating-point quotient on exact reals. A zero divisor gives an infinity or a NaN in
  Go, whose conversion to \<open>int\<close> is not defined by the language: no result (\<open>None\<close>).
\<close>

definition floatNumber :: "real Number" where
  "floatNumber = \<lparr> quo = (\<lambda>a b. if b = 0 then None else Some (a / b)),
                   float64 = (\<lambda>a. a) \<rparr>"

text \<open>
  Go's \<open>uint32\<close>: sums, differences and products wrap around modulo \<open>2 ^ 32\<close>, the order
  is the unsigned one, the quotient is the unsigned one and panics on a zero divisor, and
  \<open>float64\<close> is exact (every value is below \<open>2 ^ 53\<close>).
\<close>

definition uint32Number :: "32 word Number" where
  "uint32Number = \<lparr> quo = (\<lambda>a b. if b = 0 then None else Some (a div b)),
                    float64 = (\<lambda>a. real (unat a)) \<rparr>"

subsection \<open>Nodes\<close>

text \<open>
  A node is a reference to an object owned by the caller; the index stores references and
  reads positions through them. \<open>Point\<close> is the implementation of the \<open>Node\<close> interface
  of the repository's test file; the heap maps every reference to its object.
\<close>

type_synonym ref = nat

record ('id, 'n) Point =
  nodeId :: 'id
  nodeX :: 'n
  nodeY :: 'n
  oldX :: 'n
  oldY :: 'n

type_synonym ('id, 'n) heap = "ref \<Rightarrow> ('id, 'n) Point"

definition GetId :: "('id, 'n) heap \<Rightarrow> ref \<Rightarrow> 'id" where
  "GetId h n = nodeId (h n)"

definition GetX :: "('id, 'n) heap \<Rightarrow> ref \<Rightarrow> 'n" where
  "GetX h n = nodeX (h n)"

definition GetY :: "('id, 'n) heap \<Rightarrow> ref \<Rightarrow> 'n" where
  "GetY h n = nodeY (h n)"

definition GetOldPos :: "('id, 'n) heap \<Rightarrow> ref \<Rightarrow> 'n \<times> 'n" where
  "GetOldPos h n = (oldX (h n), oldY (h n))"

definition SetOldPos :: "('id, 'n) heap \<Rightarrow> ref \<Rightarrow> 'n \<Rightarrow> 'n \<Rightarrow> ('id, 'n) heap" where
  "SetOldPos h n x y = h(n := (h n)\<lparr>oldX := x, oldY := y\<rparr>)"

subsection \<open>Buckets\<close>

text \<open>
  A bucket is a map from identifiers to nodes. It is an association list with one entry
  per identifier, so that \<open>ForEach\<close> has an order to visit the entries in (the order of
  \<open>Range\<close> on the Go map is not specified; the theorems speak of sets of nodes only).
\<close>

type_synonym 'id bucket = "('id \<times> ref) list"

definition newBucket :: "'id bucket" where
  "newBucket = []"

definition Add :: "('id, 'n) heap \<Rightarrow> 'id bucket \<Rightarrow> ref \<Rightarrow> 'id bucket" where
  "Add h s n = AList.update (GetId h n) n s"

definition Delete :: "('id, 'n) heap \<Rightarrow> 'id bucket \<Rightarrow> ref \<Rightarrow> 'id bucket" where
  "Delete h s n = AList.delete (GetId h n) s"

text \<open>\<open>ForEach\<close> with a visitor that always returns \<open>true\<close>, threading what it updates.\<close>

definition ForEach :: "'id bucket \<Rightarrow> ('id \<Rightarrow> ref \<Rightarrow> 'a \<Rightarrow> 'a) \<Rightarrow> 'a \<Rightarrow> 'a" where
  "ForEach s f acc = foldl (\<lambda>a (i, n). f i n a) acc s"

subsection \<open>Cell keys\<close>

definition pairPoint :: "int \<Rightarrow> int \<Rightarrow> int" where
  "pairPoint x y = push_bit 16 x XOR y"

text \<open>The same function on Go's 64-bit \<open>int\<close>.\<close>

definition pairPoint64 :: "64 word \<Rightarrow> 64 word \<Rightarrow> 64 word" where
  "pairPoint64 x y = push_bit 16 x XOR y"

text \<open>
  The expression \<open>int(math.Floor(float64(coord / cellSize)))\<close>, which
  \<open>calculatePositionKey\<close>, \<open>Search\<close> and \<open>QueryRect\<close> all use. The quotient is
  taken in \<open>N\<close>, before the conversion to \<open>float64\<close>.
\<close>

definition cellIndex :: "'n Number \<Rightarrow> 'n \<Rightarrow> 'n \<Rightarrow> int option" where
  "cellIndex num coord cs = map_option (\<lambda>q. \<lfloor>float64 num q\<rfloor>) (quo num coord cs)"

subsection \<open>The index\<close>

text \<open>
  The fields of \<open>SpatialHash\<close>. The pool of result buffers is left out: a query copies
  its result out of the borrowed buffer before it returns.
\<close>

record ('id, 'n) SpatialHash =
  cellSize :: 'n
  buckets :: "int \<rightharpoonup> 'id bucket"

type_synonym ('id, 'n) state = "('id, 'n) SpatialHash \<times> ('id, 'n) heap"

definition NewSpatialHash :: "'n \<Rightarrow> ('id, 'n) SpatialHash" where
  "NewSpatialHash cs = \<lparr> cellSize = cs, buckets = Map.empty \<rparr>"

definition calculatePositionKey ::
  "'n Number \<Rightarrow> ('id, 'n) SpatialHash \<Rightarrow> 'n \<Rightarrow> 'n \<Rightarrow> int option" where
  "calculatePositionKey num sh x y =
     (case cellIndex num x (cellSize sh) of
        None \<Rightarrow> None
      | Some cx \<Rightarrow>
          (case cellIndex num y (cellSize sh) of
             None \<Rightarrow> None
           | Some cy \<Rightarrow> Some (pairPoint cx cy)))"

text \<open>The bucket that \<open>Load\<close> finds, or the new one that is stored when there is none.\<close>

definition getOrCreate :: "(int \<rightharpoonup> 'id bucket) \<Rightarrow> int \<Rightarrow> 'id bucket" where
  "getOrCreate bs key = (case bs key of None \<Rightarrow> newBucket | Some b \<Rightarrow> b)"

definition Put ::
  "'n Number \<Rightarrow> ('id, 'n) state \<Rightarrow> ref \<Rightarrow> ('id, 'n) state option" where
  "Put num s n =
     (let sh = fst s; h = snd s; x = GetX h n; y = GetY h n in
      case calculatePositionKey num sh x y of
        None \<Rightarrow> None
      | Some key \<Rightarrow>
          Some (sh\<lparr>buckets := (buckets sh)(key \<mapsto> Add h (getOrCreate (buckets sh) key) n)\<rparr>, h))"

definition Remove ::
  "'n Number \<Rightarrow> ('id, 'n) state \<Rightarrow> ref \<Rightarrow> ('id, 'n) state option" where
  "Remove num s n =
     (let sh = fst s; h = snd s; x = GetX h n; y = GetY h n in
      case calculatePositionKey num sh x y of
        None \<Rightarrow> None
      | Some key \<Rightarrow>
          (case buckets sh key of
             Some b \<Rightarrow> Some (sh\<lparr>buckets := (buckets sh)(key \<mapsto> Delete h b n)\<rparr>, h)
           | None \<Rightarrow> Some (sh, h)))"

text \<open>The bucket mutation of \<open>Update\<close> when the cell has changed.\<close>

definition migrate ::
  "('id, 'n) heap \<Rightarrow> (int \<rightharpoonup> 'id bucket) \<Rightarrow> int \<Rightarrow> int \<Rightarrow> ref \<Rightarrow> (int \<rightharpoonup> 'id bucket)" where
  "migrate h bs oldKey key n =
     (let bs1 = (case bs oldKey of Some b \<Rightarrow> bs(oldKey \<mapsto> Delete h b n) | None \<Rightarrow> bs)
      in bs1(key \<mapsto> Add h (getOrCreate bs1 key) n))"

definition Update ::
  "'n Number \<Rightarrow> ('id, 'n) state \<Rightarrow> ref \<Rightarrow> ('id, 'n) state option" where
  "Update num s n =
     (let sh = fst s; h = snd s; x = GetX h n; y = GetY h n; (ox, oy) = GetOldPos h n in
      case calculatePositionKey num sh x y of
        None \<Rightarrow> None
      | Some key \<Rightarrow>
          (case calculatePositionKey num sh ox oy of
             None \<Rightarrow> None
           | Some oldKey \<Rightarrow>
               Some (if oldKey \<noteq> key
                     then sh\<lparr>buckets := migrate h (buckets sh) oldKey key n\<rparr>
                     else sh,
                     SetOldPos h n x y)))"

text \<open>
  The loop nest of a query, which \<open>Search\<close> and \<open>QueryRect\<close> share word for word:
  for \<open>yy\<close> from \<open>minY\<close> to \<open>maxY\<close> and \<open>xx\<close> from \<open>minX\<close> to \<open>maxX\<close>, the
  bucket of the key \<open>pairPoint xx yy\<close>, when there is one, is visited by \<open>visit\<close>,
  which appends to the result.
\<close>

definition scanCells ::
  "(int \<rightharpoonup> 'id bucket) \<Rightarrow> ('id \<Rightarrow> ref \<Rightarrow> ref list \<Rightarrow> ref list) \<Rightarrow>
     int \<Rightarrow> int \<Rightarrow> int \<Rightarrow> int \<Rightarrow> ref list" where
  "scanCells bs visit minX maxX minY maxY =
     foldl (\<lambda>nodes yy.
        foldl (\<lambda>nodes xx.
           (case bs (pairPoint xx yy) of
              Some b \<Rightarrow> ForEach b visit nodes
            | None \<Rightarrow> nodes))
          nodes [minX..maxX])
       [] [minY..maxY]"

definition Search ::
  "'n::{comm_ring_1, linorder} Number \<Rightarrow> ('id, 'n) state \<Rightarrow> 'n \<Rightarrow> 'n \<Rightarrow> 'n \<Rightarrow>
     ref list option" where
  "Search num s x y radius =
     (let sh = fst s; h = snd s; cs = cellSize sh; radiusSq = radius * radius in
      (case cellIndex num (x - radius) cs of None \<Rightarrow> None | Some minX \<Rightarrow>
      (case cellIndex num (x + radius) cs of None \<Rightarrow> None | Some maxX \<Rightarrow>
      (case cellIndex num (y - radius) cs of None \<Rightarrow> None | Some minY \<Rightarrow>
      (case cellIndex num (y + radius) cs of None \<Rightarrow> None | Some maxY \<Rightarrow>
         Some (scanCells (buckets sh)
                 (\<lambda>_ n nodes.
                    let dx = GetX h n - x; dy = GetY h n - y in
                    if dx * dx + dy * dy \<le> radiusSq then nodes @ [n] else nodes)
                 minX maxX minY maxY))))))"

definition QueryRect ::
  "'n::{comm_ring_1, linorder} Number \<Rightarrow> ('id, 'n) state \<Rightarrow> 'n \<Rightarrow> 'n \<Rightarrow> 'n \<Rightarrow> 'n \<Rightarrow>
     ref list option" where
  "QueryRect num s x y width height =
     (let sh = fst s; cs = cellSize sh in
      (case quo num width 2 of None \<Rightarrow> None | Some halfWidth \<Rightarrow>
      (case quo num height 2 of None \<Rightarrow> None | Some halfHeight \<Rightarrow>
      (case cellIndex num (x - halfWidth) cs of None \<Rightarrow> None | Some minX \<Rightarrow>
      (case cellIndex num (x + halfWidth) cs of None \<Rightarrow> None | Some maxX \<Rightarrow>
      (case cellIndex num (y - halfHeight) cs of None \<Rightarrow> None | Some minY \<Rightarrow>
      (case cellIndex num (y + halfHeight) cs of None \<Rightarrow> None | Some maxY \<Rightarrow>
         Some (scanCells (buckets sh) (\<lambda>_ n nodes. nodes @ [n])
                 minX maxX minY maxY))))))))"

definition Reset :: "('id, 'n) state \<Rightarrow> ('id, 'n) state" where
  "Reset s = ((fst s)\<lparr>buckets := Map.empty\<rparr>, snd s)"

subsection \<open>The brute-force search of the test file\<close>

definition NaiveSearch ::
  "('id, 'n::{comm_ring_1, linorder}) heap \<Rightarrow> ref list \<Rightarrow> 'n \<Rightarrow> 'n \<Rightarrow> 'n \<Rightarrow> ref list" where
  "NaiveSearch h nodes x y radius =
     (let radiusSq = radius * radius in
      filter (\<lambda>node. let dx = GetX h node - x; dy = GetY h node - y
                     in dx * dx + dy * dy \<le> radiusSq) nodes)"

text \<open>The loop of the test file that fills an index: \<open>Put\<close> on every node in turn.\<close>

fun PutAll :: "'n Number \<Rightarrow> ('id, 'n) state \<Rightarrow> ref list \<Rightarrow> ('id, 'n) state option" where
  "PutAll num s [] = Some s"
| "PutAll num s (n # ns) = (case Put num s n of None \<Rightarrow> None | Some s' \<Rightarrow> PutAll num s' ns)"

subsection \<open>Notions of the specification\<close>

text \<open>
  The nodes \<open>ns\<close> are indexed at their current positions: each of them is an entry, under
  its identifier, of the bucket of the key of its position, and the buckets hold no other
  node. A node may have entries in further buckets.
\<close>

definition indexed :: "'n Number \<Rightarrow> ('id, 'n) state \<Rightarrow> ref set \<Rightarrow> bool" where
  "indexed num s ns \<longleftrightarrow>
     (\<forall>n\<in>ns. \<exists>key b.
        calculatePositionKey num (fst s) (GetX (snd s) n) (GetY (snd s) n) = Some key \<and>
        buckets (fst s) key = Some b \<and> (GetId (snd s) n, n) \<in> set b) \<and>
     (\<forall>key b i n. buckets (fst s) key = Some b \<longrightarrow> (i, n) \<in> set b \<longrightarrow> n \<in> ns)"

text \<open>The nodes found in the bucket of the cell \<open>(xx, yy)\<close>.\<close>

definition cellNodes :: "(int \<rightharpoonup> 'id bucket) \<Rightarrow> int \<Rightarrow> int \<Rightarrow> ref set" where
  "cellNodes bs xx yy = (case bs (pairPoint xx yy) of None \<Rightarrow> {} | Some b \<Rightarrow> snd ` set b)"

text \<open>
  The node \<open>n\<close> is an entry, under its identifier, of the bucket stored at \<open>key\<close>.
\<close>

definition isEntry :: "('id, 'n) state \<Rightarrow> int \<Rightarrow> ref \<Rightarrow> bool" where
  "isEntry s key n =
     (case buckets (fst s) key of None \<Rightarrow> False | Some b \<Rightarrow> (GetId (snd s) n, n) \<in> set b)"

text \<open>The entries (identifier and node) of the bucket stored at \<open>key\<close>.\<close>

definition members :: "('id, 'n) state \<Rightarrow> int \<Rightarrow> ('id \<times> ref) set" where
  "members s key = (case buckets (fst s) key of None \<Rightarrow> {} | Some b \<Rightarrow> set b)"

text \<open>
  The position of \<open>n\<close> lies in the rectangle of the given width and height centred at
  \<open>(x, y)\<close>: its distance to the centre is at most half the extent, on each axis. This
  is written in the arithmetic of \<open>N\<close>, for the instances with exact numbers.
\<close>

definition inRect ::
  "('id, 'n::linordered_idom) heap \<Rightarrow> 'n \<Rightarrow> 'n \<Rightarrow> 'n \<Rightarrow> 'n \<Rightarrow> ref \<Rightarrow> bool" where
  "inRect h x y width height n \<longleftrightarrow>
     2 * \<bar>GetX h n - x\<bar> \<le> width \<and> 2 * \<bar>GetY h n - y\<bar> \<le> height"

text \<open>
  The position of \<open>n\<close> is in the disc, and in the rectangle, of the query, with the
  coordinates read as the numbers they stand for (through \<open>float64\<close>, exact for the
  instances above).
\<close>

definition withinDisc ::
  "'n Number \<Rightarrow> ('id, 'n) heap \<Rightarrow> 'n \<Rightarrow> 'n \<Rightarrow> 'n \<Rightarrow> ref \<Rightarrow> bool" where
  "withinDisc num h x y radius n \<longleftrightarrow>
     (float64 num (GetX h n) - float64 num x)\<^sup>2 + (float64 num (GetY h n) - float64 num y)\<^sup>2
       \<le> (float64 num radius)\<^sup>2"

definition withinRect ::
  "'n Number \<Rightarrow> ('id, 'n) heap \<Rightarrow> 'n \<Rightarrow> 'n \<Rightarrow> 'n \<Rightarrow> 'n \<Rightarrow> ref \<Rightarrow> bool" where
  "withinRect num h x y width height n \<longleftrightarrow>
     2 * \<bar>float64 num (GetX h n) - float64 num x\<bar> \<le> float64 num width \<and>
     2 * \<bar>float64 num (GetY h n) - float64 num y\<bar> \<le> float64 num height"

text \<open>
  The cell of the current position of \<open>n\<close> is not the cell of its cached previous
  position: the test \<open>oldKey != key\<close> of \<open>Update\<close>.
\<close>

definition cellChanged :: "'n Number \<Rightarrow> ('id, 'n) state \<Rightarrow> ref \<Rightarrow> bool" where
  "cellChanged num s n \<longleftrightarrow>
     calculatePositionKey num (fst s) (fst (GetOldPos (snd s) n)) (snd (GetOldPos (snd s) n)) \<noteq>
     calculatePositionKey num (fst s) (GetX (snd s) n) (GetY (snd s) n)"

subsection \<open>Sequences of calls\<close>

text \<open>
  What a caller does to an index and its nodes: the calls of the interface, and moving a
  node (writing its position), which the index does not see until the next call.
\<close>

datatype 'n call =
  PutCall ref
| RemoveCall ref
| UpdateCall ref
| ResetCall
| MoveNode ref 'n 'n

fun exec :: "'n Number \<Rightarrow> ('id, 'n) state \<Rightarrow> 'n call \<Rightarrow> ('id, 'n) state option" where
  "exec num s (PutCall n) = Put num s n"
| "exec num s (RemoveCall n) = Remove num s n"
| "exec num s (UpdateCall n) = Update num s n"
| "exec num s ResetCall = Some (Reset s)"
| "exec num s (MoveNode n x y) = Some (fst s, (snd s)(n := (snd s n)\<lparr>nodeX := x, nodeY := y\<rparr>))"

fun run :: "'n Number \<Rightarrow> ('id, 'n) state \<Rightarrow> 'n call list \<Rightarrow> ('id, 'n) state option" where
  "run num s [] = Some s"
| "run num s (c # cs) = (case exec num s c of None \<Rightarrow> None | Some s' \<Rightarrow> run num s' cs)"

text \<open>The call adds a node to a bucket: a \<open>Put\<close>, or an \<open>Update\<close> that finds the cell changed.\<close>

fun inserting :: "'n Number \<Rightarrow> ('id, 'n) state \<Rightarrow> 'n call \<Rightarrow> bool" where
  "inserting num s (PutCall n) = True"
| "inserting num s (UpdateCall n) = cellChanged num s n"
| "inserting num s (RemoveCall n) = False"
| "inserting num s ResetCall = False"
| "inserting num s (MoveNode n x y) = False"

text \<open>No call of the sequence, run from \<open>s\<close>, adds a node to a bucket.\<close>

fun quiet :: "'n Number \<Rightarrow> ('id, 'n) state \<Rightarrow> 'n call list \<Rightarrow> bool" where
  "quiet num s [] = True"
| "quiet num s (c # cs) =
     (\<not> inserting num s c \<and> (case exec num s c of None \<Rightarrow> True | Some s' \<Rightarrow> quiet num s' cs))"

text \<open>The sequence has no call of \<open>Put\<close>.\<close>

fun noPut :: "'n call list \<Rightarrow> bool" where
  "noPut [] = True"
| "noPut (PutCall n # cs) = False"
| "noPut (c # cs) = noPut cs"

subsection \<open>Example states\<close>

definition floatHeap :: "(nat, real) heap" where
  "floatHeap =
     (\<lambda>_. \<lparr>nodeId = 0, nodeX = 0, nodeY = 0, oldX = 0, oldY = 0\<rparr>)
     (1 := \<lparr>nodeId = 1, nodeX = 100, nodeY = 100, oldX = 100, oldY = 100\<rparr>,
      2 := \<lparr>nodeId = 2, nodeX = 130, nodeY = 140, oldX = 130, oldY = 140\<rparr>,
      3 := \<lparr>nodeId = 3, nodeX = 300, nodeY = 300, oldX = 300, oldY = 300\<rparr>)"

definition floatIndex :: "(nat, real) state" where
  "floatIndex =
     (\<lparr>cellSize = 100, buckets = [65537 \<mapsto> [(1, 1), (2, 2)], 196611 \<mapsto> [(3, 3)]]\<rparr>,
      floatHeap)"

definition intHeap :: "(nat, int) heap" where
  "intHeap =
     (\<lambda>_. \<lparr>nodeId = 0, nodeX = 0, nodeY = 0, oldX = 0, oldY = 0\<rparr>)
     (1 := \<lparr>nodeId = 1, nodeX = - 50, nodeY = - 50, oldX = - 50, oldY = - 50\<rparr>,
      2 := \<lparr>nodeId = 2, nodeX = 20, nodeY = 30, oldX = 20, oldY = 30\<rparr>,
      3 := \<lparr>nodeId = 3, nodeX = 300, nodeY = 300, oldX = 300, oldY = 300\<rparr>)"

definition intIndex :: "(nat, int) state" where
  "intIndex =
     (\<lparr>cellSize = 100, buckets = [0 \<mapsto> [(1, 1), (2, 2)], 196611 \<mapsto> [(3, 3)]]\<rparr>, intHeap)"

text \<open>
  The node of \<open>TestSpatialHashUpdate\<close>: identifier 1 at \<open>(100, 100)\<close>, its cached
  previous position never set (Go's zero value).
\<close>

definition testHeap :: "(nat, real) heap" where
  "testHeap =
     (\<lambda>_. \<lparr>nodeId = 0, nodeX = 0, nodeY = 0, oldX = 0, oldY = 0\<rparr>)
     (1 := \<lparr>nodeId = 1, nodeX = 100, nodeY = 100, oldX = 0, oldY = 0\<rparr>)"

definition testIndex :: "(nat, real) state" where
  "testIndex = (\<lparr>cellSize = 100, buckets = [65537 \<mapsto> [(1, 1)]]\<rparr>, testHeap)"

text \<open>The same node moved to \<open>(300, 300)\<close>, its cached previous position \<open>(100, 100)\<close>.\<close>

definition movedHeap :: "(nat, real) heap" where
  "movedHeap =
     (\<lambda>_. \<lparr>nodeId = 0, nodeX = 0, nodeY = 0, oldX = 0, oldY = 0\<rparr>)
     (1 := \<lparr>nodeId = 1, nodeX = 300, nodeY = 300, oldX = 100, oldY = 100\<rparr>)"

definition movedIndex :: "(nat, real) state" where
  "movedIndex = (\<lparr>cellSize = 100, buckets = [65537 \<mapsto> [(1, 1)]]\<rparr>, movedHeap)"

definition updatedIndex :: "(nat, real) state" where
  "updatedIndex =
     (\<lparr>cellSize = 100, buckets = [196611 \<mapsto> [(1, 1)]]\<rparr>,
      (\<lambda>_. \<lparr>nodeId = 0, nodeX = 0, nodeY = 0, oldX = 0, oldY = 0\<rparr>)
      (1 := \<lparr>nodeId = 1, nodeX = 300, nodeY = 300, oldX = 300, oldY = 300\<rparr>))"

definition migratedIndex :: "(nat, real) state" where
  "migratedIndex =
     (\<lparr>cellSize = 100, buckets = [65537 \<mapsto> [], 196611 \<mapsto> [(1, 1)]]\<rparr>,
      (\<lambda>_. \<lparr>nodeId = 0, nodeX = 0, nodeY = 0, oldX = 0, oldY = 0\<rparr>)
      (1 := \<lparr>nodeId = 1, nodeX = 300, nodeY = 300, oldX = 300, oldY = 300\<rparr>))"

text \<open>
  The state at the end of \<open>TestSpatialHashUpdate\<close>: the node, now at \<open>(300, 300)\<close>, is
  in the bucket of its new cell and still in the bucket of the cell of \<open>(100, 100)\<close>.
\<close>

definition testFinal :: "(nat, real) state" where
  "testFinal =
     (\<lparr>cellSize = 100, buckets = [65537 \<mapsto> [(1, 1)], 196611 \<mapsto> [(1, 1)]]\<rparr>,
      (\<lambda>_. \<lparr>nodeId = 0, nodeX = 0, nodeY = 0, oldX = 0, oldY = 0\<rparr>)
      (1 := \<lparr>nodeId = 1, nodeX = 300, nodeY = 300, oldX = 300, oldY = 300\<rparr>))"

text \<open>An index with unsigned coordinates: one node at \<open>(3, 3)\<close>.\<close>

definition uintHeap :: "(nat, 32 word) heap" where
  "uintHeap =
     (\<lambda>_. \<lparr>nodeId = 0, nodeX = 0, nodeY = 0, oldX = 0, oldY = 0\<rparr>)
     (1 := \<lparr>nodeId = 1, nodeX = 3, nodeY = 3, oldX = 3, oldY = 3\<rparr>)"

definition uintIndex :: "(nat, 32 word) state" where
  "uintIndex = (\<lparr>cellSize = 100, buckets = [0 \<mapsto> [(1, 1)]]\<rparr>, uintHeap)"

text \<open>An index with integer coordinates: one node at \<open>(99, 0)\<close>.\<close>

definition edgeHeap :: "(nat, int) heap" where
  "edgeHeap =
     (\<lambda>_. \<lparr>nodeId = 0, nodeX = 0, nodeY = 0, oldX = 0, oldY = 0\<rparr>)
     (1 := \<lparr>nodeId = 1, nodeX = 99, nodeY = 0, oldX = 99, oldY = 0\<rparr>)"

definition edgeIndex :: "(nat, int) state" where
  "edgeIndex = (\<lparr>cellSize = 100, buckets = [0 \<mapsto> [(1, 1)]]\<rparr>, edgeHeap)"

text \<open>
  The node of \<open>TestSpatialHashUpdate\<close> after \<open>Put\<close>, a move to \<open>(50, 50)\<close> and
  \<open>Update\<close>: it is still in the bucket of the cell of \<open>(100, 100)\<close>.
\<close>

definition staleIndex :: "(nat, real) state" where
  "staleIndex =
     (\<lparr>cellSize = 100, buckets = [65537 \<mapsto> [(1, 1)]]\<rparr>,
      (\<lambda>_. \<lparr>nodeId = 0, nodeX = 0, nodeY = 0, oldX = 0, oldY = 0\<rparr>)
      (1 := \<lparr>nodeId = 1, nodeX = 50, nodeY = 50, oldX = 50, oldY = 50\<rparr>))"

subsection \<open>Two goroutines in \<open>Put\<close>\<close>

text \<open>
  \<open>Put\<close> at the grain of the operations of the concurrent map, each of which is atomic:
  the \<open>Load\<close> on the cell table, the \<open>Store\<close> of a new bucket on the cell table, and
  the \<open>Store\<close> on the bucket that \<open>Add\<close> makes. The cell table holds pointers to
  buckets, so the shared memory has the table, the bucket objects by address, and the next
  free address. A goroutine in \<open>Put(n)\<close> is about to load the bucket of its key, or has
  found none and is about to store a new one, or holds a bucket and is about to add \<open>n\<close>
  to it, or has returned. The same three steps make lines 140 to 147 of \<open>Update\<close>.
\<close>

record 'id shared =
  table :: "int \<rightharpoonup> nat"
  bucketAt :: "nat \<Rightarrow> 'id bucket"
  nextAddr :: nat

datatype pc = AtLoad ref int | AtStore ref int | AtAdd ref nat | Returned

fun step :: "('id, 'n) heap \<Rightarrow> 'id shared \<Rightarrow> pc \<Rightarrow> 'id shared \<times> pc" where
  "step h m (AtLoad n key) =
     (m, case table m key of Some b \<Rightarrow> AtAdd n b | None \<Rightarrow> AtStore n key)"
| "step h m (AtStore n key) =
     (m\<lparr>table := (table m)(key \<mapsto> nextAddr m),
        bucketAt := (bucketAt m)(nextAddr m := newBucket),
        nextAddr := Suc (nextAddr m)\<rparr>,
      AtAdd n (nextAddr m))"
| "step h m (AtAdd n b) = (m\<lparr>bucketAt := (bucketAt m)(b := Add h (bucketAt m b) n)\<rparr>, Returned)"
| "step h m Returned = (m, Returned)"

text \<open>The goroutine enters \<open>Put(n)\<close>: it computes the key, from its own reads of \<open>n\<close>.\<close>

definition enterPut ::
  "'n Number \<Rightarrow> ('id, 'n) SpatialHash \<Rightarrow> ('id, 'n) heap \<Rightarrow> ref \<Rightarrow> pc option" where
  "enterPut num sh h n =
     map_option (AtLoad n) (calculatePositionKey num sh (GetX h n) (GetY h n))"

text \<open>A schedule says which of the two goroutines takes the next step.\<close>

datatype goroutine = First | Second

fun interleave ::
  "('id, 'n) heap \<Rightarrow> goroutine list \<Rightarrow> 'id shared \<times> pc \<times> pc \<Rightarrow> 'id shared \<times> pc \<times> pc" where
  "interleave h [] c = c"
| "interleave h (First # gs) (m, p, q) = (case step h m p of (m', p') \<Rightarrow> interleave h gs (m', p', q))"
| "interleave h (Second # gs) (m, p, q) = (case step h m q of (m', q') \<Rightarrow> interleave h gs (m', p, q'))"

text \<open>The buckets that the cell table publishes: what \<open>buckets\<close> is in the index.\<close>

definition published :: "'id shared \<Rightarrow> (int \<rightharpoonup> 'id bucket)" where
  "published m key = map_option (bucketAt m) (table m key)"

definition emptyShared :: "'id shared" where
  "emptyShared = \<lparr>table = Map.empty, bucketAt = (\<lambda>_. newBucket), nextAddr = 0\<rparr>"

section \<open>Properties\<close>

subsection \<open>The key function\<close>

lemma take_bit_pairPoint: "take_bit 16 (pairPoint x y) = take_bit 16 y"
  by (simp add: pairPoint_def take_bit_push_bit)

lemma pairPoint_low:
  assumes "- 32768 \<le> y" "y < 32768"
  shows "signed_take_bit 15 (pairPoint x y) = y"
proof -
  have "signed_take_bit 15 (pairPoint x y) = signed_take_bit 15 (take_bit 16 (pairPoint x y))"
    by (simp add: signed_take_bit_take_bit)
  also have "\<dots> = signed_take_bit 15 (take_bit 16 y)"
    by (simp only: take_bit_pairPoint)
  also have "\<dots> = signed_take_bit 15 y"
    by (simp add: signed_take_bit_take_bit)
  also have "\<dots> = y"
    using assms by (simp add: signed_take_bit_int_eq_self)
  finally show ?thesis .
qed

lemma xor_cancel_int: "(a::int) XOR c = b XOR c \<Longrightarrow> a = b"
proof -
  assume "a XOR c = b XOR c"
  then have "(a XOR c) XOR c = (b XOR c) XOR c" by simp
  then show "a = b" by (simp add: xor.assoc)
qed

lemma pairPoint_inj_int:
  assumes "- 32768 \<le> y" "y < 32768" "- 32768 \<le> y'" "y' < 32768"
    and "pairPoint x y = pairPoint x' y'"
  shows "x = x' \<and> y = y'"
proof -
  have "y = signed_take_bit 15 (pairPoint x y)" using assms(1,2) by (simp only: pairPoint_low)
  also have "\<dots> = signed_take_bit 15 (pairPoint x' y')" using assms(5) by simp
  also have "\<dots> = y'" using assms(3,4) by (simp only: pairPoint_low)
  finally have y: "y = y'" .
  with assms have "push_bit 16 x XOR y' = push_bit 16 x' XOR y'" by (simp add: pairPoint_def)
  then have "push_bit 16 x = push_bit 16 x'" by (rule xor_cancel_int)
  then have "x = x'" by (simp add: push_bit_eq_mult)
  with y show ?thesis by simp
qed

lemma signed_take_bit_xor_int:
  "signed_take_bit n (k XOR l) = signed_take_bit n k XOR signed_take_bit n (l::int)"
  by (rule bit_eqI) (auto simp add: bit_signed_take_bit_iff bit_xor_iff)

lemma pairPoint64_sint:
  assumes "- (2 ^ 47) \<le> x" "x < 2 ^ 47" "- (2 ^ 63) \<le> y" "y < 2 ^ 63"
  shows "sint (pairPoint64 (word_of_int x) (word_of_int y)) = pairPoint x y"
proof -
  have "pairPoint64 (word_of_int x) (word_of_int y) = word_of_int (pairPoint x y)"
    by (rule bit_word_eqI) (auto simp add: pairPoint64_def pairPoint_def bit_simps)
  then have "sint (pairPoint64 (word_of_int x) (word_of_int y)) = signed_take_bit 63 (pairPoint x y)"
    by (simp add: sint_sbintrunc')
  also have "\<dots> = signed_take_bit 63 (push_bit 16 x) XOR signed_take_bit 63 y"
    by (simp add: pairPoint_def signed_take_bit_xor_int)
  also have "signed_take_bit 63 (push_bit 16 x) = push_bit 16 x"
    using assms by (intro signed_take_bit_int_eq_self) (simp_all add: push_bit_eq_mult)
  also have "signed_take_bit 63 y = y"
    using assms by (intro signed_take_bit_int_eq_self) simp_all
  finally show ?thesis by (simp add: pairPoint_def)
qed

lemma pairPoint64_inj:
  fixes x y x' y' :: "64 word"
  assumes "- 32768 < sint x" "sint x < 32768" "- 32768 < sint y" "sint y < 32768"
    "- 32768 < sint x'" "sint x' < 32768" "- 32768 < sint y'" "sint y' < 32768"
    and "pairPoint64 x y = pairPoint64 x' y'"
  shows "x = x' \<and> y = y'"
proof -
  have "pairPoint (sint x) (sint y) = sint (pairPoint64 (word_of_int (sint x)) (word_of_int (sint y)))"
    using assms by (subst pairPoint64_sint) simp_all
  also have "\<dots> = sint (pairPoint64 (word_of_int (sint x')) (word_of_int (sint y')))"
    using assms by simp
  also have "\<dots> = pairPoint (sint x') (sint y')"
    using assms by (subst pairPoint64_sint) simp_all
  finally have "sint x = sint x' \<and> sint y = sint y'"
    using assms by (intro pairPoint_inj_int) simp_all
  then show ?thesis by (auto intro: signed_word_eqI)
qed

subsection \<open>The coordinate types\<close>

lemma truncDiv_pos: "0 < c \<Longrightarrow> truncDiv a c = (if 0 \<le> a then a div c else - ((- a) div c))"
  by (simp add: truncDiv_def)

lemma truncDiv_mono: 
  assumes "0 < c" "a \<le> b" shows "truncDiv a c \<le> truncDiv b c"
proof -
  consider "0 \<le> a" | "a < 0" "0 \<le> b" | "b < 0" using assms by linarith
  then show ?thesis
  proof cases
    case 1 then show ?thesis using assms by (simp add: truncDiv_pos zdiv_mono1)
  next
    case 2
    have "0 \<le> (- a) div c" "0 \<le> b div c" using 2 assms by (simp_all add: pos_imp_zdiv_nonneg_iff)
    then show ?thesis using 2 assms by (simp add: truncDiv_pos)
  next
    case 3
    have "(- b) div c \<le> (- a) div c" using assms by (intro zdiv_mono1) simp_all
    then show ?thesis using 3 assms by (simp add: truncDiv_pos)
  qed
qed

lemma quo_int: "cs \<noteq> 0 \<Longrightarrow> quo intNumber a cs = Some (truncDiv a cs)"
  by (simp add: intNumber_def)

lemma quo_float: "cs \<noteq> 0 \<Longrightarrow> quo floatNumber a cs = Some (a / cs)"
  by (simp add: floatNumber_def)

lemma quo_int_total: "cs \<noteq> 0 \<Longrightarrow> quo intNumber a cs \<noteq> None"
  by (simp add: intNumber_def)

lemma quo_float_total: "cs \<noteq> 0 \<Longrightarrow> quo floatNumber a cs \<noteq> None"
  by (simp add: floatNumber_def)

lemma cellIndex_int:
  "cs \<noteq> 0 \<Longrightarrow> cellIndex intNumber a cs = Some (truncDiv a cs)"
  by (simp add: cellIndex_def intNumber_def)

lemma cellIndex_float:
  "cs \<noteq> 0 \<Longrightarrow> cellIndex floatNumber a cs = Some \<lfloor>a / cs\<rfloor>"
  by (simp add: cellIndex_def floatNumber_def)

lemma quo_uint32: "cs \<noteq> 0 \<Longrightarrow> quo uint32Number a cs = Some (a div cs)"
  by (simp add: uint32Number_def)

lemma cellIndex_uint32:
  "cs \<noteq> 0 \<Longrightarrow> cellIndex uint32Number a cs = Some (uint (a div cs))"
proof -
  have "\<lfloor>(unsigned (a div cs) :: real)\<rfloor> = \<lfloor>real_of_int (uint (a div cs))\<rfloor>"
    by (simp only: of_int_uint)
  then have "\<lfloor>(unsigned (a div cs) :: real)\<rfloor> = uint (a div cs)"
    by (simp only: floor_of_int)
  then show "cs \<noteq> 0 \<Longrightarrow> cellIndex uint32Number a cs = Some (uint (a div cs))"
    by (simp add: cellIndex_def uint32Number_def)
qed

lemma cellIndex_int_mono:
  "0 < cs \<Longrightarrow> a \<le> b \<Longrightarrow>
     \<exists>i j. cellIndex intNumber a cs = Some i \<and> cellIndex intNumber b cs = Some j \<and> i \<le> j"
  by (simp add: cellIndex_int truncDiv_mono)

lemma cellIndex_float_mono:
  "0 < cs \<Longrightarrow> a \<le> b \<Longrightarrow>
     \<exists>i j. cellIndex floatNumber a cs = Some i \<and> cellIndex floatNumber b cs = Some j \<and> i \<le> j"
  by (simp add: cellIndex_float floor_mono divide_right_mono)

lemma floor_div_int: "\<lfloor>real_of_int a / real_of_int c\<rfloor> = a div c"
  by (simp add: floor_divide_of_int_eq)

lemma truncDiv_floor:
  assumes "0 < c"
  shows "truncDiv a c = a div c + (if a < 0 \<and> \<not> c dvd a then 1 else 0)"
proof (cases "0 \<le> a")
  case True
  with assms show ?thesis by (simp add: truncDiv_pos)
next
  case False
  have "(- a) div c = (if a mod c = 0 then - (a div c) else - (a div c) - 1)"
    using assms by (simp add: zdiv_zminus1_eq_if)
  with False assms show ?thesis by (auto simp add: truncDiv_pos dvd_eq_mod_eq_0)
qed

lemma cellIndex_int_floor:
  "0 < cs \<Longrightarrow> cellIndex intNumber a cs =
     Some (\<lfloor>real_of_int a / real_of_int cs\<rfloor> + (if a < 0 \<and> \<not> cs dvd a then 1 else 0))"
  by (simp add: cellIndex_int truncDiv_floor floor_div_int)

lemma cellIndex_total:
  assumes "\<And>a. quo num a cs \<noteq> None"
  shows "\<exists>i. cellIndex num a cs = Some i"
  using assms [of a] by (auto simp add: cellIndex_def)

lemma between_cells:
  assumes mono: "\<And>a b. a \<le> b \<Longrightarrow>
      \<exists>i j. cellIndex num a cs = Some i \<and> cellIndex num b cs = Some j \<and> i \<le> j"
    and "cellIndex num lo cs = Some i" "cellIndex num hi cs = Some j"
    and "lo \<le> (c::'n::linordered_idom)" "c \<le> hi"
  shows "\<exists>k. cellIndex num c cs = Some k \<and> k \<in> {i..j}"
  using mono [OF assms(4)] mono [OF assms(5)] assms(2,3) by auto

lemma half_int:
  fixes c x w :: int
  assumes "2 * \<bar>c - x\<bar> \<le> w"
  shows "x - truncDiv w 2 \<le> c \<and> c \<le> x + truncDiv w 2"
proof -
  from assms have "0 \<le> w" by arith
  then have t: "truncDiv w 2 = w div 2" by (simp add: truncDiv_pos)
  from assms have "\<bar>c - x\<bar> \<le> w div 2" by arith
  then show ?thesis unfolding t by arith
qed

lemma half_float:
  fixes c x w :: real
  assumes "2 * \<bar>c - x\<bar> \<le> w"
  shows "x - w / 2 \<le> c \<and> c \<le> x + w / 2"
proof -
  from assms have "\<bar>c - x\<bar> \<le> w / 2" by (simp add: field_simps)
  then show ?thesis by arith
qed

lemma calculatePositionKey_total:
  assumes "\<And>a. quo num a (cellSize sh) \<noteq> None"
  shows "\<exists>key. calculatePositionKey num sh x y = Some key"
  using cellIndex_total [of num "cellSize sh" x, OF assms] cellIndex_total [of num "cellSize sh" y, OF assms]
  by (auto simp add: calculatePositionKey_def)

lemma calculatePositionKey_float:
  "cellSize sh \<noteq> 0 \<Longrightarrow>
     calculatePositionKey floatNumber sh x y =
       Some (pairPoint \<lfloor>x / cellSize sh\<rfloor> \<lfloor>y / cellSize sh\<rfloor>)"
  by (simp add: calculatePositionKey_def cellIndex_float)

lemma calculatePositionKey_int:
  "cellSize sh \<noteq> 0 \<Longrightarrow>
     calculatePositionKey intNumber sh x y =
       Some (pairPoint (truncDiv x (cellSize sh)) (truncDiv y (cellSize sh)))"
  by (simp add: calculatePositionKey_def cellIndex_int)

lemma calculatePositionKey_cong:
  "cellSize sh' = cellSize sh \<Longrightarrow> calculatePositionKey num sh' = calculatePositionKey num sh"
  by (intro ext) (simp add: calculatePositionKey_def split: option.splits)

subsection \<open>Buckets\<close>

lemma set_Add: "set (Add h b n) \<subseteq> insert (GetId h n, n) (set b)"
  unfolding Add_def by (induction b) auto

lemma Add_mem: "(GetId h n, n) \<in> set (Add h b n)"
  unfolding Add_def by (induction b) auto

lemma Add_keeps: "(i, m) \<in> set b \<Longrightarrow> i \<noteq> GetId h n \<Longrightarrow> (i, m) \<in> set (Add h b n)"
  unfolding Add_def by (induction b) auto

lemma set_Delete: "set (Delete h b n) = {p \<in> set b. fst p \<noteq> GetId h n}"
  by (auto simp add: Delete_def AList.delete_eq)

lemma Delete_absent: "GetId h n \<notin> fst ` set b \<Longrightarrow> Delete h b n = b"
  by (simp add: Delete_def)

lemma Delete_twice: "Delete h (Delete h b n) n = Delete h b n"
  by (simp add: Delete_def delete_idem)

lemma isEntry_Add: "buckets (fst s) key = Some (Add (snd s) b n) \<Longrightarrow> isEntry s key n"
  by (simp add: isEntry_def Add_mem)

subsection \<open>What the calls return\<close>

lemma Put_result:
  assumes "calculatePositionKey num (fst s) (GetX (snd s) n) (GetY (snd s) n) = Some key"
  shows "Put num s n =
     Some ((fst s)\<lparr>buckets := (buckets (fst s))(key \<mapsto> Add (snd s) (getOrCreate (buckets (fst s)) key) n)\<rparr>,
           snd s)"
  using assms by (simp add: Put_def Let_def)

lemma Put_Some:
  "Put num s n = Some s' \<Longrightarrow>
     \<exists>key. calculatePositionKey num (fst s) (GetX (snd s) n) (GetY (snd s) n) = Some key \<and>
       s' = ((fst s)\<lparr>buckets := (buckets (fst s))(key \<mapsto> Add (snd s) (getOrCreate (buckets (fst s)) key) n)\<rparr>, snd s)"
  by (auto simp add: Put_def Let_def split: option.splits)

lemma Put_heap: "Put num s n = Some s' \<Longrightarrow> snd s' = snd s"
  by (auto dest: Put_Some)

lemma Remove_result:
  assumes "calculatePositionKey num (fst s) (GetX (snd s) n) (GetY (snd s) n) = Some key"
  shows "Remove num s n =
     Some (case buckets (fst s) key of
             Some b \<Rightarrow> ((fst s)\<lparr>buckets := (buckets (fst s))(key \<mapsto> Delete (snd s) b n)\<rparr>, snd s)
           | None \<Rightarrow> s)"
  using assms by (simp add: Remove_def Let_def split: option.splits)

lemma Update_result:
  assumes "calculatePositionKey num (fst s) (GetX (snd s) n) (GetY (snd s) n) = Some key"
    and "calculatePositionKey num (fst s) (fst (GetOldPos (snd s) n)) (snd (GetOldPos (snd s) n)) = Some oldKey"
  shows "Update num s n =
     Some (if oldKey \<noteq> key
           then (fst s)\<lparr>buckets := migrate (snd s) (buckets (fst s)) oldKey key n\<rparr>
           else fst s,
           SetOldPos (snd s) n (GetX (snd s) n) (GetY (snd s) n))"
  using assms by (simp add: Update_def Let_def case_prod_beta)

lemma migrate_key:
  "oldKey \<noteq> key \<Longrightarrow> migrate h bs oldKey key n key = Some (Add h (getOrCreate bs key) n)"
  by (simp add: migrate_def getOrCreate_def Let_def split: option.splits)



lemma Remove_gen:
  assumes key: "calculatePositionKey num (fst s) (GetX (snd s) n) (GetY (snd s) n) = Some key"
  shows "\<exists>s'. Remove num s n = Some s' \<and> snd s' = snd s \<and> cellSize (fst s') = cellSize (fst s) \<and>
     dom (buckets (fst s')) = dom (buckets (fst s)) \<and>
     (\<forall>k i m. i \<noteq> GetId (snd s) n \<longrightarrow> ((i, m) \<in> members s' k \<longleftrightarrow> (i, m) \<in> members s k)) \<and>
     (GetId (snd s) n \<notin> fst ` members s key \<longrightarrow> s' = s) \<and>
     Remove num s' n = Some s'"
proof (cases "buckets (fst s) key")
  case None
  then have r: "Remove num s n = Some s" using Remove_result [OF key] by simp
  then show ?thesis by simp
next
  case (Some b)
  let ?s' = "((fst s)\<lparr>buckets := (buckets (fst s))(key \<mapsto> Delete (snd s) b n)\<rparr>, snd s)"
  have r: "Remove num s n = Some ?s'" using Remove_result [OF key] Some by simp
  have key': "calculatePositionKey num (fst ?s') (GetX (snd ?s') n) (GetY (snd ?s') n) = Some key"
    using key calculatePositionKey_cong [of "fst ?s'" "fst s" num] by simp
  have "Remove num ?s' n = Some ?s'"
    using Remove_result [OF key'] by (simp add: Delete_twice)
  moreover have "dom (buckets (fst ?s')) = dom (buckets (fst s))"
    using Some by auto
  moreover have "(i, m) \<in> members ?s' k \<longleftrightarrow> (i, m) \<in> members s k" if "i \<noteq> GetId (snd s) n" for k i m
    using that Some by (cases "k = key") (auto simp add: members_def set_Delete)
  moreover have "?s' = s" if "GetId (snd s) n \<notin> fst ` members s key"
  proof -
    from that Some have "Delete (snd s) b n = b" by (simp add: members_def Delete_absent)
    with Some have "(buckets (fst s))(key \<mapsto> Delete (snd s) b n) = buckets (fst s)"
      by (simp add: map_upd_triv)
    then show ?thesis by (simp add: prod_eq_iff)
  qed
  ultimately show ?thesis using r by simp
qed

subsection \<open>The loop nest of a query\<close>

lemma set_foldl_grow:
  "(\<And>acc a. a \<in> set xs \<Longrightarrow> set (f acc a) = set acc \<union> S a) \<Longrightarrow>
     set (foldl f acc xs) = set acc \<union> (\<Union>a\<in>set xs. S a)"
proof (induction xs arbitrary: acc)
  case Nil
  then show ?case by simp
next
  case (Cons a xs)
  have "set (foldl f (f acc a) xs) = set (f acc a) \<union> (\<Union>a\<in>set xs. S a)"
    by (rule Cons.IH) (simp add: Cons.prems)
  then show ?case by (simp add: Cons.prems Un_assoc)
qed

lemma set_ForEach:
  assumes "\<And>i n acc. set (visit i n acc) = set acc \<union> (if P n then {n} else {})"
  shows "set (ForEach b visit acc) = set acc \<union> {n. \<exists>i. (i, n) \<in> set b \<and> P n}"
proof -
  have "set (foldl (\<lambda>a (i, n). visit i n a) acc b) =
          set acc \<union> (\<Union>p\<in>set b. if P (snd p) then {snd p} else {})"
  proof (rule set_foldl_grow)
    fix a :: "ref list" and p :: "'a \<times> ref"
    show "set (case p of (i, n) \<Rightarrow> visit i n a) = set a \<union> (if P (snd p) then {snd p} else {})"
      by (cases p) (simp add: assms)
  qed
  also have "(\<Union>p\<in>set b. if P (snd p) then {snd p} else {}) = {n. \<exists>i. (i, n) \<in> set b \<and> P n}"
    by (auto split: if_splits)
  finally show ?thesis by (simp add: ForEach_def)
qed

lemma set_scanCells:
  assumes "\<And>i n acc. set (visit i n acc) = set acc \<union> (if P n then {n} else {})"
  shows "set (scanCells bs visit minX maxX minY maxY) =
           {n. P n \<and> (\<exists>yy\<in>{minY..maxY}. \<exists>xx\<in>{minX..maxX}. n \<in> cellNodes bs xx yy)}"
proof -
  let ?cell = "\<lambda>yy xx. {n. P n \<and> n \<in> cellNodes bs xx yy}"
  have cell: "set (case bs (pairPoint xx yy) of Some b \<Rightarrow> ForEach b visit acc | None \<Rightarrow> acc) =
                set acc \<union> ?cell yy xx" for xx yy acc
    by (cases "bs (pairPoint xx yy)") (force simp add: set_ForEach [OF assms] cellNodes_def)+
  have row: "set (foldl (\<lambda>nodes xx. case bs (pairPoint xx yy) of
                                       Some b \<Rightarrow> ForEach b visit nodes | None \<Rightarrow> nodes)
                    acc [minX..maxX]) =
               set acc \<union> (\<Union>xx\<in>set [minX..maxX]. ?cell yy xx)" for yy acc
    by (rule set_foldl_grow) (rule cell)
  have "set (scanCells bs visit minX maxX minY maxY) =
          set [] \<union> (\<Union>yy\<in>set [minY..maxY]. \<Union>xx\<in>set [minX..maxX]. ?cell yy xx)"
    unfolding scanCells_def by (rule set_foldl_grow) (rule row)
  then show ?thesis by auto
qed

lemma foldl_skip: "foldl (\<lambda>acc _. acc) a xs = a"
  by (induction xs) simp_all

lemma scanCells_empty: "scanCells Map.empty visit minX maxX minY maxY = []"
  by (simp add: scanCells_def foldl_skip)

subsection \<open>Nodes indexed at their positions\<close>

lemma indexed_cell:
  assumes "indexed num s ns" "n \<in> ns"
    and "cellIndex num (GetX (snd s) n) (cellSize (fst s)) = Some cx"
    and "cellIndex num (GetY (snd s) n) (cellSize (fst s)) = Some cy"
  shows "n \<in> cellNodes (buckets (fst s)) cx cy"
proof -
  from assms(1,2) obtain key b where
    "calculatePositionKey num (fst s) (GetX (snd s) n) (GetY (snd s) n) = Some key"
    "buckets (fst s) key = Some b" "(GetId (snd s) n, n) \<in> set b"
    unfolding indexed_def by blast
  with assms(3,4) show ?thesis
    by (force simp add: calculatePositionKey_def cellNodes_def)
qed

lemma indexed_only:
  "indexed num s ns \<Longrightarrow> n \<in> cellNodes (buckets (fst s)) xx yy \<Longrightarrow> n \<in> ns"
  unfolding indexed_def cellNodes_def by (auto split: option.splits)

lemma indexed_New: "indexed num (NewSpatialHash cs, h) {}"
  by (simp add: indexed_def NewSpatialHash_def)

lemma indexed_Put:
  assumes ix: "indexed num s ns"
    and ids: "\<forall>m\<in>ns. GetId (snd s) m = GetId (snd s) n \<longrightarrow> m = n"
    and put: "Put num s n = Some s'"
  shows "indexed num s' (insert n ns)"
proof -
  let ?h = "snd s" and ?bs = "buckets (fst s)"
  from put obtain key where
    key: "calculatePositionKey num (fst s) (GetX ?h n) (GetY ?h n) = Some key"
    and s': "s' = ((fst s)\<lparr>buckets := ?bs(key \<mapsto> Add ?h (getOrCreate ?bs key) n)\<rparr>, ?h)"
    by (blast dest: Put_Some)
  have ck: "calculatePositionKey num (fst s') = calculatePositionKey num (fst s)"
    by (rule calculatePositionKey_cong) (simp add: s')
  have old: "(i, m) \<in> set (getOrCreate ?bs key) \<Longrightarrow> m \<in> ns" for i m
    using ix by (auto simp add: indexed_def getOrCreate_def newBucket_def split: option.splits)
  show ?thesis
    unfolding indexed_def
  proof (intro conjI ballI allI impI)
    fix m assume m: "m \<in> insert n ns"
    show "\<exists>k b. calculatePositionKey num (fst s') (GetX (snd s') m) (GetY (snd s') m) = Some k \<and>
                 buckets (fst s') k = Some b \<and> (GetId (snd s') m, m) \<in> set b"
    proof (cases "m = n")
      case True
      then show ?thesis using key by (simp add: ck) (simp add: s' Add_mem)
    next
      case False
      with m have mns: "m \<in> ns" by simp
      with ix obtain k b where
        k: "calculatePositionKey num (fst s) (GetX ?h m) (GetY ?h m) = Some k"
           "?bs k = Some b" "(GetId ?h m, m) \<in> set b"
        unfolding indexed_def by blast
      show ?thesis
      proof (cases "k = key")
        case True
        from ids mns False have "GetId ?h m \<noteq> GetId ?h n" by blast
        with k True have "(GetId ?h m, m) \<in> set (Add ?h (getOrCreate ?bs key) n)"
          by (intro Add_keeps) (simp_all add: getOrCreate_def)
        with k True show ?thesis by (simp add: ck) (simp add: s')
      next
        case False
        with k show ?thesis by (simp add: ck) (simp add: s')
      qed
    qed
  next
    fix k b i m
    assume b: "buckets (fst s') k = Some b" and im: "(i, m) \<in> set b"
    show "m \<in> insert n ns"
    proof (cases "k = key")
      case True
      with b have "b = Add ?h (getOrCreate ?bs key) n" by (simp add: s')
      with im set_Add [of ?h "getOrCreate ?bs key" n] have "m = n \<or> (i, m) \<in> set (getOrCreate ?bs key)"
        by auto
      then show ?thesis using old by auto
    next
      case False
      with b have "?bs k = Some b" by (simp add: s')
      with ix im show ?thesis unfolding indexed_def by blast
    qed
  qed
qed

lemma indexed_PutAll:
  assumes "indexed num s ms"
    and "inj_on (GetId (snd s)) (ms \<union> set ns)"
    and "PutAll num s ns = Some s'"
  shows "indexed num s' (ms \<union> set ns)"
  using assms
proof (induction ns arbitrary: s ms)
  case Nil
  then show ?case by simp
next
  case (Cons n ns)
  from Cons.prems(3) obtain s1 where s1: "Put num s n = Some s1" "PutAll num s1 ns = Some s'"
    by (auto split: option.splits)
  have h: "snd s1 = snd s" using s1(1) by (rule Put_heap)
  have "indexed num s1 (insert n ms)"
    using Cons.prems(1) _ s1(1)
  proof (rule indexed_Put)
    show "\<forall>m\<in>ms. GetId (snd s) m = GetId (snd s) n \<longrightarrow> m = n"
      using Cons.prems(2) by (auto simp add: inj_on_def)
  qed
  moreover have "inj_on (GetId (snd s1)) (insert n ms \<union> set ns)"
    using Cons.prems(2) by (simp add: h)
  ultimately have "indexed num s' (insert n ms \<union> set ns)"
    using s1(2) by (rule Cons.IH)
  then show ?case by simp
qed

subsection \<open>The disc query\<close>

lemma sq_le_imp_abs_le:
  fixes d r :: "'n::linordered_idom"
  assumes "d * d + e * e \<le> r * r" "0 \<le> r"
  shows "\<bar>d\<bar> \<le> r"
proof -
  have "d * d \<le> d * d + e * e" by simp
  with assms have "d * d \<le> r * r" by linarith
  then have "\<bar>d\<bar> \<le> \<bar>r\<bar>" by (simp add: abs_le_square_iff power2_eq_square)
  with assms show ?thesis by simp
qed

lemma Search_set_gen:
  fixes s :: "('id, 'n::linordered_idom) state"
  assumes mono: "\<And>a b. a \<le> b \<Longrightarrow>
      \<exists>i j. cellIndex num a (cellSize (fst s)) = Some i \<and>
            cellIndex num b (cellSize (fst s)) = Some j \<and> i \<le> j"
    and r: "0 \<le> r" and ix: "indexed num s ns"
  shows "\<exists>res. Search num s x y r = Some res \<and>
    set res = {n \<in> ns. (GetX (snd s) n - x) * (GetX (snd s) n - x) +
                        (GetY (snd s) n - y) * (GetY (snd s) n - y) \<le> r * r}"
proof -
  let ?cs = "cellSize (fst s)" and ?h = "snd s"
  let ?P = "\<lambda>n. (GetX ?h n - x) * (GetX ?h n - x) + (GetY ?h n - y) * (GetY ?h n - y) \<le> r * r"
  from mono [of "x - r" "x + r"] r obtain minX maxX where
    X: "cellIndex num (x - r) ?cs = Some minX" "cellIndex num (x + r) ?cs = Some maxX" by auto
  from mono [of "y - r" "y + r"] r obtain minY maxY where
    Y: "cellIndex num (y - r) ?cs = Some minY" "cellIndex num (y + r) ?cs = Some maxY" by auto
  let ?res = "scanCells (buckets (fst s))
                (\<lambda>_ n nodes. let dx = GetX ?h n - x; dy = GetY ?h n - y in
                   if dx * dx + dy * dy \<le> r * r then nodes @ [n] else nodes)
                minX maxX minY maxY"
  have res: "Search num s x y r = Some ?res"
    by (simp add: Search_def X Y Let_def)
  have scan: "set ?res = {n. ?P n \<and> (\<exists>yy\<in>{minY..maxY}. \<exists>xx\<in>{minX..maxX}.
                                  n \<in> cellNodes (buckets (fst s)) xx yy)}"
    by (rule set_scanCells) (simp add: Let_def)
  have "set ?res = {n \<in> ns. ?P n}"
  proof (intro set_eqI iffI)
    fix n assume "n \<in> set ?res"
    with scan ix show "n \<in> {n \<in> ns. ?P n}"
      by (auto dest: indexed_only)
  next
    fix n assume "n \<in> {n \<in> ns. ?P n}"
    then have n: "n \<in> ns" and P: "?P n" by simp_all
    from P r have "\<bar>GetX ?h n - x\<bar> \<le> r" by (rule sq_le_imp_abs_le)
    then have "x - r \<le> GetX ?h n" "GetX ?h n \<le> x + r" by (simp_all add: abs_le_iff algebra_simps)
    with mono X obtain cx where
      cx: "cellIndex num (GetX ?h n) ?cs = Some cx" "cx \<in> {minX..maxX}"
      using between_cells [of num ?cs "x - r" minX "x + r" maxX "GetX ?h n"] by blast
    from P have "(GetY ?h n - y) * (GetY ?h n - y) + (GetX ?h n - x) * (GetX ?h n - x) \<le> r * r"
      by (simp add: add.commute)
    with r have "\<bar>GetY ?h n - y\<bar> \<le> r" by (rule sq_le_imp_abs_le [rotated])
    then have "y - r \<le> GetY ?h n" "GetY ?h n \<le> y + r" by (simp_all add: abs_le_iff algebra_simps)
    with mono Y obtain cy where
      cy: "cellIndex num (GetY ?h n) ?cs = Some cy" "cy \<in> {minY..maxY}"
      using between_cells [of num ?cs "y - r" minY "y + r" maxY "GetY ?h n"] by blast
    from ix n cx(1) cy(1) have "n \<in> cellNodes (buckets (fst s)) cx cy" by (rule indexed_cell)
    with cx(2) cy(2) P scan show "n \<in> set ?res" by blast
  qed
  then show ?thesis by (simp add: res)
qed

lemma set_NaiveSearch:
  "set (NaiveSearch h nodes x y r) =
     {n \<in> set nodes. (GetX h n - x)\<^sup>2 + (GetY h n - y)\<^sup>2 \<le> r\<^sup>2}"
  by (auto simp add: NaiveSearch_def Let_def power2_eq_square)

lemma Search_float_NaiveSearch:
  fixes s :: "('id, real) state"
  assumes "0 < cellSize (fst s)" "0 \<le> r" "indexed floatNumber s (set nodes)"
  shows "\<exists>res. Search floatNumber s x y r = Some res \<and>
           set res = set (NaiveSearch (snd s) nodes x y r)"
proof -
  have "\<exists>res. Search floatNumber s x y r = Some res \<and>
      set res = {n \<in> set nodes. (GetX (snd s) n - x) * (GetX (snd s) n - x) +
                           (GetY (snd s) n - y) * (GetY (snd s) n - y) \<le> r * r}"
  proof (rule Search_set_gen)
    show "\<exists>i j. cellIndex floatNumber a (cellSize (fst s)) = Some i \<and>
                 cellIndex floatNumber b (cellSize (fst s)) = Some j \<and> i \<le> j" if "a \<le> b" for a b
      using assms(1) that by (rule cellIndex_float_mono)
  qed (rule assms)+
  then show ?thesis by (simp add: set_NaiveSearch power2_eq_square)
qed

lemma Search_int_NaiveSearch:
  fixes s :: "('id, int) state"
  assumes "0 < cellSize (fst s)" "0 \<le> r" "indexed intNumber s (set nodes)"
  shows "\<exists>res. Search intNumber s x y r = Some res \<and>
           set res = set (NaiveSearch (snd s) nodes x y r)"
proof -
  have "\<exists>res. Search intNumber s x y r = Some res \<and>
      set res = {n \<in> set nodes. (GetX (snd s) n - x) * (GetX (snd s) n - x) +
                           (GetY (snd s) n - y) * (GetY (snd s) n - y) \<le> r * r}"
  proof (rule Search_set_gen)
    show "\<exists>i j. cellIndex intNumber a (cellSize (fst s)) = Some i \<and>
                 cellIndex intNumber b (cellSize (fst s)) = Some j \<and> i \<le> j" if "a \<le> b" for a b
      using assms(1) that by (rule cellIndex_int_mono)
  qed (rule assms)+
  then show ?thesis by (simp add: set_NaiveSearch power2_eq_square)
qed

lemma Search_empty:
  assumes "\<And>a. quo num a (cellSize (fst s)) \<noteq> None" and "buckets (fst s) = Map.empty"
  shows "Search num s x y r = Some []"
proof -
  note t = cellIndex_total [of num "cellSize (fst s)", OF assms(1)]
  from t [of "x - r"] t [of "x + r"] t [of "y - r"] t [of "y + r"] assms(2)
  show ?thesis by (auto simp add: Search_def Let_def scanCells_empty)
qed

subsection \<open>The rectangle query\<close>

lemma QueryRect_result:
  assumes "quo num w 2 = Some hw" "quo num hgt 2 = Some hh"
    and "cellIndex num (x - hw) (cellSize (fst s)) = Some minX"
    and "cellIndex num (x + hw) (cellSize (fst s)) = Some maxX"
    and "cellIndex num (y - hh) (cellSize (fst s)) = Some minY"
    and "cellIndex num (y + hh) (cellSize (fst s)) = Some maxY"
  shows "\<exists>res. QueryRect num s x y w hgt = Some res \<and>
           set res = (\<Union>yy\<in>{minY..maxY}. \<Union>xx\<in>{minX..maxX}. cellNodes (buckets (fst s)) xx yy)"
proof -
  let ?res = "scanCells (buckets (fst s)) (\<lambda>_ n nodes. nodes @ [n]) minX maxX minY maxY"
  have "QueryRect num s x y w hgt = Some ?res"
    using assms by (simp add: QueryRect_def Let_def)
  moreover have "set ?res = {n. True \<and> (\<exists>yy\<in>{minY..maxY}. \<exists>xx\<in>{minX..maxX}.
                                   n \<in> cellNodes (buckets (fst s)) xx yy)}"
    by (rule set_scanCells) simp
  ultimately show ?thesis by auto
qed

lemma inRect_cells:
  fixes s :: "('id, 'n::linordered_idom) state"
  assumes mono: "\<And>a b. a \<le> b \<Longrightarrow>
      \<exists>i j. cellIndex num a (cellSize (fst s)) = Some i \<and>
            cellIndex num b (cellSize (fst s)) = Some j \<and> i \<le> j"
    and halfW: "\<And>c. 2 * \<bar>c - x\<bar> \<le> w \<Longrightarrow> x - hw \<le> c \<and> c \<le> x + hw"
    and halfH: "\<And>c. 2 * \<bar>c - y\<bar> \<le> hgt \<Longrightarrow> y - hh \<le> c \<and> c \<le> y + hh"
    and X: "cellIndex num (x - hw) (cellSize (fst s)) = Some minX"
      "cellIndex num (x + hw) (cellSize (fst s)) = Some maxX"
    and Y: "cellIndex num (y - hh) (cellSize (fst s)) = Some minY"
      "cellIndex num (y + hh) (cellSize (fst s)) = Some maxY"
    and ix: "indexed num s ns" and n: "n \<in> ns" and r: "inRect (snd s) x y w hgt n"
  shows "n \<in> (\<Union>yy\<in>{minY..maxY}. \<Union>xx\<in>{minX..maxX}. cellNodes (buckets (fst s)) xx yy)"
proof -
  let ?cs = "cellSize (fst s)" and ?h = "snd s"
  from r have "x - hw \<le> GetX ?h n \<and> GetX ?h n \<le> x + hw"
    by (intro halfW) (simp add: inRect_def)
  with mono X obtain cx where
    cx: "cellIndex num (GetX ?h n) ?cs = Some cx" "cx \<in> {minX..maxX}"
    using between_cells [of num ?cs "x - hw" minX "x + hw" maxX "GetX ?h n"] by blast
  from r have "y - hh \<le> GetY ?h n \<and> GetY ?h n \<le> y + hh"
    by (intro halfH) (simp add: inRect_def)
  with mono Y obtain cy where
    cy: "cellIndex num (GetY ?h n) ?cs = Some cy" "cy \<in> {minY..maxY}"
    using between_cells [of num ?cs "y - hh" minY "y + hh" maxY "GetY ?h n"] by blast
  from ix n cx(1) cy(1) have "n \<in> cellNodes (buckets (fst s)) cx cy" by (rule indexed_cell)
  with cx(2) cy(2) show ?thesis by blast
qed

lemma QueryRect_int:
  fixes si :: "('a, int) state"
  assumes cs: "0 < cellSize (fst si)" and ix: "indexed intNumber si nsi"
  shows "\<exists>res. QueryRect intNumber si xi yi wi hi = Some res \<and>
              set res =
                (\<Union>yy\<in>{truncDiv (yi - truncDiv hi 2) (cellSize (fst si)) ..
                         truncDiv (yi + truncDiv hi 2) (cellSize (fst si))}.
                 \<Union>xx\<in>{truncDiv (xi - truncDiv wi 2) (cellSize (fst si)) ..
                         truncDiv (xi + truncDiv wi 2) (cellSize (fst si))}.
                   cellNodes (buckets (fst si)) xx yy) \<and>
              {n \<in> nsi. inRect (snd si) xi yi wi hi n} \<subseteq> set res"
proof -
  let ?cs = "cellSize (fst si)"
  let ?cells = "\<Union>yy\<in>{truncDiv (yi - truncDiv hi 2) ?cs .. truncDiv (yi + truncDiv hi 2) ?cs}.
                 \<Union>xx\<in>{truncDiv (xi - truncDiv wi 2) ?cs .. truncDiv (xi + truncDiv wi 2) ?cs}.
                   cellNodes (buckets (fst si)) xx yy"
  from cs have nz: "?cs \<noteq> 0" by simp
  have q: "quo intNumber wi 2 = Some (truncDiv wi 2)" "quo intNumber hi 2 = Some (truncDiv hi 2)"
    by (simp_all add: quo_int)
  note c = cellIndex_int [OF nz]
  have "\<exists>res. QueryRect intNumber si xi yi wi hi = Some res \<and> set res = ?cells"
    by (rule QueryRect_result [OF q]) (rule c)+
  then obtain res where
    res: "QueryRect intNumber si xi yi wi hi = Some res" "set res = ?cells" by blast
  have mono: "\<exists>i j. cellIndex intNumber a ?cs = Some i \<and> cellIndex intNumber b ?cs = Some j \<and> i \<le> j"
    if "a \<le> b" for a b using cs that by (rule cellIndex_int_mono)
  have "n \<in> ?cells" if n: "n \<in> nsi" "inRect (snd si) xi yi wi hi n" for n
  proof (rule inRect_cells [where num = intNumber and s = si and ns = nsi and x = xi and y = yi
          and w = wi and hgt = hi and hw = "truncDiv wi 2" and hh = "truncDiv hi 2"])
    show "\<exists>i j. cellIndex intNumber a ?cs = Some i \<and> cellIndex intNumber b ?cs = Some j \<and> i \<le> j"
      if "a \<le> b" for a b using that by (rule mono)
    show "xi - truncDiv wi 2 \<le> c \<and> c \<le> xi + truncDiv wi 2" if "2 * \<bar>c - xi\<bar> \<le> wi" for c
      using that by (rule half_int)
    show "yi - truncDiv hi 2 \<le> c \<and> c \<le> yi + truncDiv hi 2" if "2 * \<bar>c - yi\<bar> \<le> hi" for c
      using that by (rule half_int)
  qed (rule c ix n)+
  then have sub: "{n \<in> nsi. inRect (snd si) xi yi wi hi n} \<subseteq> ?cells" by blast
  show ?thesis
  proof (intro exI conjI)
    show "QueryRect intNumber si xi yi wi hi = Some res" by (rule res(1))
    show "set res = ?cells" by (rule res(2))
    show "{n \<in> nsi. inRect (snd si) xi yi wi hi n} \<subseteq> set res"
      unfolding res(2) by (rule sub)
  qed
qed

lemma QueryRect_float:
  fixes sf :: "('b, real) state"
  assumes cs: "0 < cellSize (fst sf)" and ix: "indexed floatNumber sf nsf"
  shows "\<exists>res. QueryRect floatNumber sf xf yf wr hr = Some res \<and>
              set res =
                (\<Union>yy\<in>{\<lfloor>(yf - hr / 2) / cellSize (fst sf)\<rfloor> .. \<lfloor>(yf + hr / 2) / cellSize (fst sf)\<rfloor>}.
                 \<Union>xx\<in>{\<lfloor>(xf - wr / 2) / cellSize (fst sf)\<rfloor> .. \<lfloor>(xf + wr / 2) / cellSize (fst sf)\<rfloor>}.
                   cellNodes (buckets (fst sf)) xx yy) \<and>
              {n \<in> nsf. inRect (snd sf) xf yf wr hr n} \<subseteq> set res"
proof -
  let ?cs = "cellSize (fst sf)"
  let ?cells = "\<Union>yy\<in>{\<lfloor>(yf - hr / 2) / ?cs\<rfloor> .. \<lfloor>(yf + hr / 2) / ?cs\<rfloor>}.
                 \<Union>xx\<in>{\<lfloor>(xf - wr / 2) / ?cs\<rfloor> .. \<lfloor>(xf + wr / 2) / ?cs\<rfloor>}.
                   cellNodes (buckets (fst sf)) xx yy"
  from cs have nz: "?cs \<noteq> 0" by simp
  have q: "quo floatNumber wr 2 = Some (wr / 2)" "quo floatNumber hr 2 = Some (hr / 2)"
    by (simp_all add: quo_float)
  note c = cellIndex_float [OF nz]
  have "\<exists>res. QueryRect floatNumber sf xf yf wr hr = Some res \<and> set res = ?cells"
    by (rule QueryRect_result [OF q]) (rule c)+
  then obtain res where
    res: "QueryRect floatNumber sf xf yf wr hr = Some res" "set res = ?cells" by blast
  have mono: "\<exists>i j. cellIndex floatNumber a ?cs = Some i \<and> cellIndex floatNumber b ?cs = Some j \<and> i \<le> j"
    if "a \<le> b" for a b using cs that by (rule cellIndex_float_mono)
  have "n \<in> ?cells" if n: "n \<in> nsf" "inRect (snd sf) xf yf wr hr n" for n
  proof (rule inRect_cells [where num = floatNumber and s = sf and ns = nsf and x = xf and y = yf
          and w = wr and hgt = hr and hw = "wr / 2" and hh = "hr / 2"])
    show "\<exists>i j. cellIndex floatNumber a ?cs = Some i \<and> cellIndex floatNumber b ?cs = Some j \<and> i \<le> j"
      if "a \<le> b" for a b using that by (rule mono)
    show "xf - wr / 2 \<le> c \<and> c \<le> xf + wr / 2" if "2 * \<bar>c - xf\<bar> \<le> wr" for c
      using that by (rule half_float)
    show "yf - hr / 2 \<le> c \<and> c \<le> yf + hr / 2" if "2 * \<bar>c - yf\<bar> \<le> hr" for c
      using that by (rule half_float)
  qed (rule c ix n)+
  then have sub: "{n \<in> nsf. inRect (snd sf) xf yf wr hr n} \<subseteq> ?cells" by blast
  show ?thesis
  proof (intro exI conjI)
    show "QueryRect floatNumber sf xf yf wr hr = Some res" by (rule res(1))
    show "set res = ?cells" by (rule res(2))
    show "{n \<in> nsf. inRect (snd sf) xf yf wr hr n} \<subseteq> set res"
      unfolding res(2) by (rule sub)
  qed
qed

lemma QueryRect_empty:
  assumes "\<And>a. quo num a (cellSize (fst s)) \<noteq> None" and "quo num w 2 \<noteq> None" "quo num h 2 \<noteq> None" 
    and "buckets (fst s) = Map.empty"
  shows "QueryRect num s x y w h = Some []"
proof -
  from assms(2,3) obtain hw hh where hw: "quo num w 2 = Some hw" "quo num h 2 = Some hh" by auto
  note t = cellIndex_total [of num "cellSize (fst s)", OF assms(1)]
  from t [of "x - hw"] t [of "x + hw"] t [of "y - hh"] t [of "y + hh"] assms(4) hw
  show ?thesis by (auto simp add: QueryRect_def Let_def scanCells_empty)
qed

subsection \<open>Calls on an empty index\<close>

lemma exec_quiet_empty:
  assumes tot: "\<And>a. quo num a (cellSize (fst s)) \<noteq> None"
    and emp: "buckets (fst s) = Map.empty" and q: "\<not> inserting num s c"
  shows "\<exists>s'. exec num s c = Some s' \<and> buckets (fst s') = Map.empty \<and>
           cellSize (fst s') = cellSize (fst s)"
proof (cases c)
  case (PutCall n)
  with q show ?thesis by simp
next
  case (RemoveCall n)
  from calculatePositionKey_total [OF tot] obtain key where
    "calculatePositionKey num (fst s) (GetX (snd s) n) (GetY (snd s) n) = Some key" by blast
  from Remove_result [OF this] emp RemoveCall show ?thesis by simp
next
  case (UpdateCall n)
  from calculatePositionKey_total [OF tot] obtain key where
    k: "calculatePositionKey num (fst s) (GetX (snd s) n) (GetY (snd s) n) = Some key" by blast
  from calculatePositionKey_total [OF tot] obtain oldKey where
    o: "calculatePositionKey num (fst s) (fst (GetOldPos (snd s) n)) (snd (GetOldPos (snd s) n)) =
          Some oldKey" by blast
  from q UpdateCall k o have "oldKey = key" by (simp add: cellChanged_def)
  with Update_result [OF k o] emp UpdateCall show ?thesis by simp
next
  case ResetCall
  then show ?thesis by (simp add: Reset_def)
next
  case (MoveNode n x y)
  with emp show ?thesis by simp
qed

lemma run_quiet_empty:
  assumes "\<And>a. quo num a (cellSize (fst s)) \<noteq> None"
    and "buckets (fst s) = Map.empty" and "quiet num s cs"
  shows "\<exists>s'. run num s cs = Some s' \<and> buckets (fst s') = Map.empty \<and>
           cellSize (fst s') = cellSize (fst s)"
  using assms
proof (induction cs arbitrary: s)
  case Nil
  then show ?case by simp
next
  case (Cons c cs)
  from Cons.prems(3) have q: "\<not> inserting num s c" by simp
  from exec_quiet_empty [OF Cons.prems(1,2) q] obtain s1 where
    s1: "exec num s c = Some s1" "buckets (fst s1) = Map.empty"
      "cellSize (fst s1) = cellSize (fst s)" by blast
  from Cons.prems(3) s1(1) have "quiet num s1 cs" by simp
  with Cons.IH [of s1] s1 Cons.prems(1) obtain s' where
    "run num s1 cs = Some s'" "buckets (fst s') = Map.empty" "cellSize (fst s') = cellSize (fst s1)"
    by auto
  with s1 show ?case by simp
qed

lemma after_Reset_gen:
  assumes tot: "\<And>a. quo num a (cellSize (fst s)) \<noteq> None"
    and two: "\<And>a. quo num a 2 \<noteq> None"
    and q: "quiet num (Reset s) cs"
  shows "\<exists>s'. run num (Reset s) cs = Some s' \<and>
           (\<forall>x y r. Search num s' x y r = Some []) \<and>
           (\<forall>x y w h. QueryRect num s' x y w h = Some [])"
proof -
  have "\<exists>s'. run num (Reset s) cs = Some s' \<and> buckets (fst s') = Map.empty \<and>
           cellSize (fst s') = cellSize (fst (Reset s))"
    using _ _ q by (rule run_quiet_empty) (simp_all add: Reset_def tot)
  then obtain s' where s': "run num (Reset s) cs = Some s'" "buckets (fst s') = Map.empty"
    "cellSize (fst s') = cellSize (fst s)" by (auto simp add: Reset_def)
  have tot': "quo num a (cellSize (fst s')) \<noteq> None" for a using tot s'(3) by simp
  have "Search num s' x y r = Some []" for x y r
    using tot' s'(2) by (rule Search_empty)
  moreover have "QueryRect num s' x y w h = Some []" for x y w h
    using tot' two two s'(2) by (rule QueryRect_empty)
  ultimately show ?thesis using s'(1) by simp
qed

subsection \<open>The example states\<close>

lemma floatIndex_built:
  "PutAll floatNumber (NewSpatialHash 100, floatHeap) [1, 2, 3] = Some floatIndex"
  by (simp add: Put_def calculatePositionKey_float NewSpatialHash_def floatHeap_def floatIndex_def
      GetX_def GetY_def GetId_def Add_def getOrCreate_def newBucket_def pairPoint_def fun_upd_twist)

lemma intIndex_built:
  "PutAll intNumber (NewSpatialHash 100, intHeap) [1, 2, 3] = Some intIndex"
  by (simp add: Put_def calculatePositionKey_int NewSpatialHash_def intHeap_def intIndex_def
      truncDiv_def GetX_def GetY_def GetId_def Add_def getOrCreate_def newBucket_def pairPoint_def
      fun_upd_twist)

lemma floatIndex_indexed: "indexed floatNumber floatIndex {1, 2, 3}"
proof -
  have "inj_on (GetId (snd (NewSpatialHash 100 :: (nat, real) SpatialHash, floatHeap)))
          ({} \<union> set [1, 2, 3])"
    by (simp add: GetId_def floatHeap_def)
  with indexed_New have "indexed floatNumber floatIndex ({} \<union> set [1, 2, 3])"
    using floatIndex_built by (rule indexed_PutAll)
  then show ?thesis by simp
qed

lemma intIndex_indexed: "indexed intNumber intIndex {1, 2, 3}"
proof -
  have "inj_on (GetId (snd (NewSpatialHash 100 :: (nat, int) SpatialHash, intHeap)))
          ({} \<union> set [1, 2, 3])"
    by (simp add: GetId_def intHeap_def)
  with indexed_New have "indexed intNumber intIndex ({} \<union> set [1, 2, 3])"
    using intIndex_built by (rule indexed_PutAll)
  then show ?thesis by simp
qed

lemma Search_floatIndex: "Search floatNumber floatIndex 100 100 50 = Some [1, 2]"
  by (simp add: Search_def cellIndex_float floatIndex_def floatHeap_def scanCells_def ForEach_def
      upto.simps pairPoint_def GetX_def GetY_def)

lemma Search_floatIndex_point: "Search floatNumber floatIndex 130 140 0 = Some [2]"
  by (simp add: Search_def cellIndex_float floatIndex_def floatHeap_def scanCells_def ForEach_def
      upto.simps pairPoint_def GetX_def GetY_def)

lemma Search_floatIndex_wide: "Search floatNumber floatIndex 100 100 300 = Some [1, 2, 3]"
  by (simp add: Search_def cellIndex_float floatIndex_def floatHeap_def scanCells_def ForEach_def
      upto.simps pairPoint_def push_bit_eq_mult GetX_def GetY_def)

lemma Search_intIndex: "Search intNumber intIndex (- 10) (- 10) 60 = Some [1, 2]"
  by (simp add: Search_def cellIndex_int truncDiv_def intIndex_def intHeap_def scanCells_def
      ForEach_def upto.simps pairPoint_def GetX_def GetY_def)

lemma QueryRect_floatIndex: "QueryRect floatNumber floatIndex 350 350 20 20 = Some [3]"
  by (simp add: QueryRect_def cellIndex_float quo_float floatIndex_def scanCells_def
      ForEach_def upto.simps pairPoint_def)

lemma QueryRect_floatIndex_in: "QueryRect floatNumber floatIndex 310 310 20 20 = Some [3]"
  by (simp add: QueryRect_def cellIndex_float quo_float floatIndex_def scanCells_def
      ForEach_def upto.simps pairPoint_def)

lemma QueryRect_intIndex: "QueryRect intNumber intIndex 20 20 25 25 = Some [1, 2]"
  by (simp add: QueryRect_def cellIndex_int quo_int truncDiv_def intIndex_def scanCells_def
      ForEach_def upto.simps pairPoint_def)

lemma movedIndex_keys:
  "calculatePositionKey floatNumber (fst movedIndex) (GetX (snd movedIndex) 1)
     (GetY (snd movedIndex) 1) = Some 196611"
  "calculatePositionKey floatNumber (fst movedIndex) (fst (GetOldPos (snd movedIndex) 1))
     (snd (GetOldPos (snd movedIndex) 1)) = Some 65537"
  by (simp_all add: calculatePositionKey_float movedIndex_def movedHeap_def GetX_def GetY_def
      GetOldPos_def pairPoint_def)

lemma Update_movedIndex: "Update floatNumber movedIndex 1 = Some migratedIndex"
  by (simp add: Update_def calculatePositionKey_float movedIndex_def migratedIndex_def
      movedHeap_def migrate_def Delete_def Add_def getOrCreate_def newBucket_def GetId_def
      GetX_def GetY_def GetOldPos_def SetOldPos_def pairPoint_def fun_upd_twist)

lemma quiet_intIndex:
  "quiet intNumber (Reset intIndex) [RemoveCall 1, MoveNode 2 25 35, UpdateCall 2]"
  by (simp add: Reset_def intIndex_def intHeap_def Remove_def Update_def cellChanged_def
      calculatePositionKey_int truncDiv_def GetX_def GetY_def GetOldPos_def SetOldPos_def)

lemma quiet_floatIndex:
  "quiet floatNumber (Reset floatIndex) [RemoveCall 3, UpdateCall 1]"
  by (simp add: Reset_def floatIndex_def floatHeap_def Remove_def Update_def cellChanged_def
      calculatePositionKey_float GetX_def GetY_def GetOldPos_def SetOldPos_def)

lemma uintIndex_built: "PutAll uint32Number (NewSpatialHash 100, uintHeap) [1] = Some uintIndex"
  by (simp add: Put_def calculatePositionKey_def cellIndex_uint32 NewSpatialHash_def uintHeap_def
      uintIndex_def GetX_def GetY_def GetId_def Add_def getOrCreate_def newBucket_def pairPoint_def)

lemma uintIndex_indexed: "indexed uint32Number uintIndex {1}"
proof -
  have "inj_on (GetId (snd (NewSpatialHash 100 :: (nat, 32 word) SpatialHash, uintHeap)))
          ({} \<union> set [1])"
    by simp
  with indexed_New have "indexed uint32Number uintIndex ({} \<union> set [1])"
    using uintIndex_built by (rule indexed_PutAll)
  then show ?thesis by simp
qed

lemma uintIndex_key:
  "calculatePositionKey uint32Number (fst uintIndex) (GetX (snd uintIndex) 1)
     (GetY (snd uintIndex) 1) = Some 0"
  by (simp add: calculatePositionKey_def cellIndex_uint32 uintIndex_def uintHeap_def GetX_def
      GetY_def pairPoint_def)

lemma isEntry_uintIndex: "isEntry uintIndex 0 1"
  by (simp add: isEntry_def uintIndex_def uintHeap_def GetId_def)

lemma edgeIndex_built: "PutAll intNumber (NewSpatialHash 100, edgeHeap) [1] = Some edgeIndex"
  by (simp add: Put_def calculatePositionKey_int NewSpatialHash_def edgeHeap_def edgeIndex_def
      truncDiv_def GetX_def GetY_def GetId_def Add_def getOrCreate_def newBucket_def pairPoint_def)

lemma QueryRect_edgeIndex: "QueryRect intNumber edgeIndex 112 0 25 1 = Some []"
  by (simp add: QueryRect_def cellIndex_int quo_int truncDiv_def edgeIndex_def scanCells_def
      ForEach_def upto.simps pairPoint_def)

lemma floatIndex_keys:
  "calculatePositionKey floatNumber (fst floatIndex) (GetX (snd floatIndex) 1)
     (GetY (snd floatIndex) 1) = Some 65537"
  "calculatePositionKey floatNumber (fst floatIndex) (fst (GetOldPos (snd floatIndex) 1))
     (snd (GetOldPos (snd floatIndex) 1)) = Some 65537"
  by (simp_all add: calculatePositionKey_float floatIndex_def floatHeap_def GetX_def GetY_def
      GetOldPos_def pairPoint_def)

lemma isEntry_floatIndex: "isEntry floatIndex 65537 1"
  by (simp add: isEntry_def floatIndex_def floatHeap_def GetId_def)

subsection \<open>The queries on exact numbers\<close>

text \<open>
  With integers that do not overflow and with reals in place of floats, and a positive
  cell size, \<open>Search\<close> returns exactly the indexed nodes in the disc, and \<open>QueryRect\<close>
  returns the nodes of the cells of its range, which include the indexed nodes in the
  rectangle. What the code does otherwise comes from the arithmetic of \<open>N\<close> alone.
\<close>

lemma Search_exact_numbers:
  fixes si :: "('a, int) state" and sf :: "('b, real) state"
  shows "(0 < cellSize (fst si) \<and> 0 \<le> ri \<and> indexed intNumber si nsi \<longrightarrow>
            (\<exists>res. Search intNumber si xi yi ri = Some res \<and>
               set res = {n \<in> nsi. (GetX (snd si) n - xi)\<^sup>2 + (GetY (snd si) n - yi)\<^sup>2 \<le> ri\<^sup>2})) \<and>
         (0 < cellSize (fst sf) \<and> 0 \<le> rf \<and> indexed floatNumber sf nsf \<longrightarrow>
            (\<exists>res. Search floatNumber sf xf yf rf = Some res \<and>
               set res = {n \<in> nsf. (GetX (snd sf) n - xf)\<^sup>2 + (GetY (snd sf) n - yf)\<^sup>2 \<le> rf\<^sup>2}))"
proof (intro conjI impI)
  assume a: "0 < cellSize (fst si) \<and> 0 \<le> ri \<and> indexed intNumber si nsi"
  have "\<exists>res. Search intNumber si xi yi ri = Some res \<and>
      set res = {n \<in> nsi. (GetX (snd si) n - xi) * (GetX (snd si) n - xi) +
                           (GetY (snd si) n - yi) * (GetY (snd si) n - yi) \<le> ri * ri}"
  proof (rule Search_set_gen)
    show "\<exists>i j. cellIndex intNumber a (cellSize (fst si)) = Some i \<and>
                 cellIndex intNumber b (cellSize (fst si)) = Some j \<and> i \<le> j" if "a \<le> b" for a b
      using a that by (intro cellIndex_int_mono) simp_all
  qed (simp_all add: a)
  then show "\<exists>res. Search intNumber si xi yi ri = Some res \<and>
      set res = {n \<in> nsi. (GetX (snd si) n - xi)\<^sup>2 + (GetY (snd si) n - yi)\<^sup>2 \<le> ri\<^sup>2}"
    by (simp add: power2_eq_square)
next
  assume a: "0 < cellSize (fst sf) \<and> 0 \<le> rf \<and> indexed floatNumber sf nsf"
  have "\<exists>res. Search floatNumber sf xf yf rf = Some res \<and>
      set res = {n \<in> nsf. (GetX (snd sf) n - xf) * (GetX (snd sf) n - xf) +
                           (GetY (snd sf) n - yf) * (GetY (snd sf) n - yf) \<le> rf * rf}"
  proof (rule Search_set_gen)
    show "\<exists>i j. cellIndex floatNumber a (cellSize (fst sf)) = Some i \<and>
                 cellIndex floatNumber b (cellSize (fst sf)) = Some j \<and> i \<le> j" if "a \<le> b" for a b
      using a that by (intro cellIndex_float_mono) simp_all
  qed (simp_all add: a)
  then show "\<exists>res. Search floatNumber sf xf yf rf = Some res \<and>
      set res = {n \<in> nsf. (GetX (snd sf) n - xf)\<^sup>2 + (GetY (snd sf) n - yf)\<^sup>2 \<le> rf\<^sup>2}"
    by (simp add: power2_eq_square)
qed

lemma QueryRect_superset_numbers:
  fixes si :: "('a, int) state" and sf :: "('b, real) state"
  shows "(0 < cellSize (fst si) \<and> indexed intNumber si nsi \<longrightarrow>
           (\<exists>res. QueryRect intNumber si xi yi wi hi = Some res \<and>
              set res =
                (\<Union>yy\<in>{truncDiv (yi - truncDiv hi 2) (cellSize (fst si)) ..
                         truncDiv (yi + truncDiv hi 2) (cellSize (fst si))}.
                 \<Union>xx\<in>{truncDiv (xi - truncDiv wi 2) (cellSize (fst si)) ..
                         truncDiv (xi + truncDiv wi 2) (cellSize (fst si))}.
                   cellNodes (buckets (fst si)) xx yy) \<and>
              {n \<in> nsi. inRect (snd si) xi yi wi hi n} \<subseteq> set res)) \<and>
         (0 < cellSize (fst sf) \<and> indexed floatNumber sf nsf \<longrightarrow>
           (\<exists>res. QueryRect floatNumber sf xf yf wr hr = Some res \<and>
              set res =
                (\<Union>yy\<in>{\<lfloor>(yf - hr / 2) / cellSize (fst sf)\<rfloor> .. \<lfloor>(yf + hr / 2) / cellSize (fst sf)\<rfloor>}.
                 \<Union>xx\<in>{\<lfloor>(xf - wr / 2) / cellSize (fst sf)\<rfloor> .. \<lfloor>(xf + wr / 2) / cellSize (fst sf)\<rfloor>}.
                   cellNodes (buckets (fst sf)) xx yy) \<and>
              {n \<in> nsf. inRect (snd sf) xf yf wr hr n} \<subseteq> set res)) \<and>
         QueryRect floatNumber floatIndex 350 350 20 20 = Some [3] \<and>
         \<not> inRect (snd floatIndex) 350 350 20 20 3"
proof (intro conjI impI)
  assume "0 < cellSize (fst si) \<and> indexed intNumber si nsi"
  then have "0 < cellSize (fst si)" "indexed intNumber si nsi" by simp_all
  then show "\<exists>res. QueryRect intNumber si xi yi wi hi = Some res \<and>
              set res =
                (\<Union>yy\<in>{truncDiv (yi - truncDiv hi 2) (cellSize (fst si)) ..
                         truncDiv (yi + truncDiv hi 2) (cellSize (fst si))}.
                 \<Union>xx\<in>{truncDiv (xi - truncDiv wi 2) (cellSize (fst si)) ..
                         truncDiv (xi + truncDiv wi 2) (cellSize (fst si))}.
                   cellNodes (buckets (fst si)) xx yy) \<and>
              {n \<in> nsi. inRect (snd si) xi yi wi hi n} \<subseteq> set res"
    by (rule QueryRect_int)
next
  assume "0 < cellSize (fst sf) \<and> indexed floatNumber sf nsf"
  then have "0 < cellSize (fst sf)" "indexed floatNumber sf nsf" by simp_all
  then show "\<exists>res. QueryRect floatNumber sf xf yf wr hr = Some res \<and>
              set res =
                (\<Union>yy\<in>{\<lfloor>(yf - hr / 2) / cellSize (fst sf)\<rfloor> .. \<lfloor>(yf + hr / 2) / cellSize (fst sf)\<rfloor>}.
                 \<Union>xx\<in>{\<lfloor>(xf - wr / 2) / cellSize (fst sf)\<rfloor> .. \<lfloor>(xf + wr / 2) / cellSize (fst sf)\<rfloor>}.
                   cellNodes (buckets (fst sf)) xx yy) \<and>
              {n \<in> nsf. inRect (snd sf) xf yf wr hr n} \<subseteq> set res"
    by (rule QueryRect_float)
next
  show "QueryRect floatNumber floatIndex 350 350 20 20 = Some [3]"
    by (rule QueryRect_floatIndex)
  show "\<not> inRect (snd floatIndex) 350 350 20 20 3"
    by (simp add: inRect_def floatIndex_def floatHeap_def GetX_def GetY_def)
qed

subsection \<open>One goroutine alone does what \<open>Put\<close> does\<close>

lemma Put_steps:
  assumes fresh: "\<forall>k b. table m k = Some b \<longrightarrow> b < nextAddr m"
    and inj: "\<forall>k k' b. table m k = Some b \<and> table m k' = Some b \<longrightarrow> k = k'"
  shows "\<exists>m'. interleave h [First, First, First] (m, AtLoad n key, q) = (m', Returned, q) \<and>
           published m' = (published m)(key \<mapsto> Add h (getOrCreate (published m) key) n)"
proof (cases "table m key")
  case None
  let ?m' = "m\<lparr>table := (table m)(key \<mapsto> nextAddr m),
          bucketAt := (bucketAt m)(nextAddr m := newBucket),
          nextAddr := Suc (nextAddr m)\<rparr>"
  let ?m'' = "?m'\<lparr>bucketAt := (bucketAt ?m')(nextAddr m := Add h (bucketAt ?m' (nextAddr m)) n)\<rparr>"
  have run: "interleave h [First, First, First] (m, AtLoad n key, q) = (?m'', Returned, q)"
    using None by simp
  have "published ?m'' k = ((published m)(key \<mapsto> Add h (getOrCreate (published m) key) n)) k" for k
  proof (cases "k = key")
    case True
    with None show ?thesis by (simp add: published_def getOrCreate_def)
  next
    case False
    with fresh show ?thesis by (cases "table m k") (auto simp add: published_def)
  qed
  then have "published ?m'' = (published m)(key \<mapsto> Add h (getOrCreate (published m) key) n)"
    by (rule ext)
  with run show ?thesis by (intro exI conjI)
next
  case (Some b)
  let ?m' = "m\<lparr>bucketAt := (bucketAt m)(b := Add h (bucketAt m b) n)\<rparr>"
  have run: "interleave h [First, First, First] (m, AtLoad n key, q) = (?m', Returned, q)"
    using Some by simp
  have "published ?m' k = ((published m)(key \<mapsto> Add h (getOrCreate (published m) key) n)) k" for k
  proof (cases "k = key")
    case True
    with Some show ?thesis by (simp add: published_def getOrCreate_def)
  next
    case False
    with Some inj show ?thesis by (cases "table m k") (auto simp add: published_def)
  qed
  then have "published ?m' = (published m)(key \<mapsto> Add h (getOrCreate (published m) key) n)"
    by (rule ext)
  with run show ?thesis by (intro exI conjI)
qed

subsection \<open>The test \<open>TestSpatialHashUpdate\<close>\<close>

text \<open>
  The test passes: the search at the old position finds nothing, because of the filter on
  the distance, although the node is still an entry of the old bucket (\<open>Update\<close> looked
  for it in the cell of the cached position \<open>(0, 0)\<close>, which \<open>Put\<close> had not set).
\<close>

lemma TestSpatialHashUpdate_trace:
  "run floatNumber (NewSpatialHash 100, testHeap) [PutCall 1, MoveNode 1 300 300, UpdateCall 1] =
     Some testFinal"
  by (simp add: Put_def Update_def calculatePositionKey_float NewSpatialHash_def testHeap_def
      testFinal_def migrate_def Delete_def Add_def getOrCreate_def newBucket_def GetId_def
      GetX_def GetY_def GetOldPos_def SetOldPos_def pairPoint_def fun_upd_twist)

lemma TestSpatialHashUpdate_searches:
  "Search floatNumber testFinal 100 100 50 = Some [] \<and>
   Search floatNumber testFinal 300 300 50 = Some [1]"
  by (simp add: Search_def cellIndex_float testFinal_def scanCells_def ForEach_def
      upto.simps pairPoint_def GetX_def GetY_def)

section \<open>The claims\<close>

text \<open>
  C7. The key of a cell is \<open>(cellX << 16) XOR cellY\<close>. Two distinct pairs of cell
  coordinates whose components all have magnitude below 32768 have distinct keys, on the
  unbounded integers and on 64-bit words alike; outside that range keys collide: the pair
  \<open>(0, 65536)\<close> has the key of the cell \<open>(1, 0)\<close>.
\<close>

theorem pairPoint_injective:
  fixes x y x' y' :: int and u v u' v' :: "64 word"
  shows "pairPoint x y = push_bit 16 x XOR y \<and>
     pairPoint64 u v = push_bit 16 u XOR v \<and>
     (\<bar>x\<bar> < 32768 \<and> \<bar>y\<bar> < 32768 \<and> \<bar>x'\<bar> < 32768 \<and> \<bar>y'\<bar> < 32768 \<and> (x, y) \<noteq> (x', y')
        \<longrightarrow> pairPoint x y \<noteq> pairPoint x' y') \<and>
     (\<bar>sint u\<bar> < 32768 \<and> \<bar>sint v\<bar> < 32768 \<and> \<bar>sint u'\<bar> < 32768 \<and> \<bar>sint v'\<bar> < 32768 \<and>
        (u, v) \<noteq> (u', v') \<longrightarrow> pairPoint64 u v \<noteq> pairPoint64 u' v') \<and>
     pairPoint 0 65536 = pairPoint 1 0 \<and> pairPoint64 0 65536 = pairPoint64 1 0"
proof (intro conjI impI)
  show "pairPoint x y = push_bit 16 x XOR y" by (simp add: pairPoint_def)
  show "pairPoint64 u v = push_bit 16 u XOR v" by (simp add: pairPoint64_def)
  show "pairPoint 0 65536 = pairPoint 1 0" by (simp add: pairPoint_def)
  show "pairPoint64 0 65536 = pairPoint64 1 0" by (simp add: pairPoint64_def)
next
  assume a: "\<bar>x\<bar> < 32768 \<and> \<bar>y\<bar> < 32768 \<and> \<bar>x'\<bar> < 32768 \<and> \<bar>y'\<bar> < 32768 \<and> (x, y) \<noteq> (x', y')"
  then have r: "- 32768 \<le> y" "y < 32768" "- 32768 \<le> y'" "y' < 32768" by linarith+
  show "pairPoint x y \<noteq> pairPoint x' y'"
  proof
    assume "pairPoint x y = pairPoint x' y'"
    with r have "x = x' \<and> y = y'" by (rule pairPoint_inj_int)
    with a show False by simp
  qed
next
  assume a: "\<bar>sint u\<bar> < 32768 \<and> \<bar>sint v\<bar> < 32768 \<and> \<bar>sint u'\<bar> < 32768 \<and> \<bar>sint v'\<bar> < 32768 \<and>
    (u, v) \<noteq> (u', v')"
  then have r: "- 32768 < sint u" "sint u < 32768" "- 32768 < sint v" "sint v < 32768"
    "- 32768 < sint u'" "sint u' < 32768" "- 32768 < sint v'" "sint v' < 32768" by linarith+
  show "pairPoint64 u v \<noteq> pairPoint64 u' v'"
  proof
    assume "pairPoint64 u v = pairPoint64 u' v'"
    with r have "u = u' \<and> v = v'" by (rule pairPoint64_inj)
    with a show False by simp
  qed
qed

theorem pairPoint_injective_witness:
  "\<bar>- 1 :: int\<bar> < 32768 \<and> \<bar>2 :: int\<bar> < 32768 \<and> (- 1 :: int, 2 :: int) \<noteq> (2, - 1) \<and>
   pairPoint (- 1) 2 \<noteq> pairPoint 2 (- 1) \<and>
   \<bar>sint (- 1 :: 64 word)\<bar> < 32768 \<and> \<bar>sint (2 :: 64 word)\<bar> < 32768 \<and>
   (- 1 :: 64 word, 2 :: 64 word) \<noteq> (2, - 1) \<and>
   pairPoint64 (- 1) 2 \<noteq> pairPoint64 2 (- 1)"
proof -
  note inj = pairPoint_injective [of "- 1" 2 "- 1" 2 2 "- 1" 2 "- 1"]
  have i: "\<bar>- 1 :: int\<bar> < 32768 \<and> \<bar>2 :: int\<bar> < 32768 \<and> (- 1 :: int, 2 :: int) \<noteq> (2, - 1)"
    by simp
  have w: "\<bar>sint (- 1 :: 64 word)\<bar> < 32768 \<and> \<bar>sint (2 :: 64 word)\<bar> < 32768 \<and>
    (- 1 :: 64 word, 2 :: 64 word) \<noteq> (2, - 1)"
    by simp
  from inj i have "pairPoint (- 1) 2 \<noteq> pairPoint 2 (- 1)" by blast
  moreover from inj w have "pairPoint64 (- 1) 2 \<noteq> pairPoint64 2 (- 1)" by blast
  ultimately show ?thesis using i w by blast
qed

text \<open>
  C1 fails on the code for an unsigned coordinate type: \<open>x - radius\<close> is computed in
  \<open>N\<close> and wraps around. With \<open>N = uint32\<close> and cell size 100, the node at \<open>(3, 3)\<close>
  is indexed in cell \<open>(0, 0)\<close> and is in the disc of radius 10 around \<open>(5, 5)\<close>, and the
  brute-force search of the test file returns it; but \<open>5 - 10\<close> is \<open>4294967291\<close>, the
  first cell of the range is \<open>42949672\<close>, the last is 0, no cell is visited and \<open>Search\<close>
  returns nothing.
\<close>

theorem Search_unsigned_wraps:
  "PutAll uint32Number (NewSpatialHash 100, uintHeap) [1] = Some uintIndex \<and>
   calculatePositionKey uint32Number (fst uintIndex) (GetX (snd uintIndex) 1)
     (GetY (snd uintIndex) 1) = Some 0 \<and>
   isEntry uintIndex 0 1 \<and>
   withinDisc uint32Number (snd uintIndex) 5 5 10 1 \<and>
   NaiveSearch (snd uintIndex) [1] 5 5 10 = [1] \<and>
   cellIndex uint32Number (5 - 10) 100 = Some 42949672 \<and>
   cellIndex uint32Number (5 + 10) 100 = Some 0 \<and>
   Search uint32Number uintIndex 5 5 10 = Some []"
proof (intro conjI)
  show "PutAll uint32Number (NewSpatialHash 100, uintHeap) [1] = Some uintIndex"
    by (rule uintIndex_built)
  show "calculatePositionKey uint32Number (fst uintIndex) (GetX (snd uintIndex) 1)
     (GetY (snd uintIndex) 1) = Some 0"
    by (rule uintIndex_key)
  show "isEntry uintIndex 0 1" by (rule isEntry_uintIndex)
  show "withinDisc uint32Number (snd uintIndex) 5 5 10 1"
    by (simp add: withinDisc_def uint32Number_def uintIndex_def uintHeap_def GetX_def GetY_def)
  show "NaiveSearch (snd uintIndex) [1] 5 5 10 = [1]"
    by (simp add: NaiveSearch_def uintIndex_def uintHeap_def GetX_def GetY_def)
  show "cellIndex uint32Number (5 - 10) 100 = Some 42949672" by (simp add: cellIndex_uint32)
  show "cellIndex uint32Number (5 + 10) 100 = Some 0" by (simp add: cellIndex_uint32)
  show "Search uint32Number uintIndex 5 5 10 = Some []"
    by (simp add: Search_def cellIndex_uint32 uintIndex_def scanCells_def upto.simps)
qed

text \<open>
  C10. \<open>Put(n)\<close> leaves the heap as it is, so the cached previous position of \<open>n\<close> is
  what it was, and it leaves every bucket other than the one of the cell of the current
  position of \<open>n\<close> as it is; \<open>n\<close> is then an entry of that bucket. \<open>Remove\<close> and
  \<open>Reset\<close> leave the heap as it is too: of the calls that change the index, only
  \<open>Update\<close> writes the cache.
\<close>

theorem Put_frame:
  assumes "calculatePositionKey num (fst s) (GetX (snd s) n) (GetY (snd s) n) = Some key"
  shows "(\<exists>s'. Put num s n = Some s' \<and> snd s' = snd s \<and>
            GetOldPos (snd s') n = GetOldPos (snd s) n \<and> cellSize (fst s') = cellSize (fst s) \<and>
            (\<forall>k. k \<noteq> key \<longrightarrow> buckets (fst s') k = buckets (fst s) k) \<and> isEntry s' key n) \<and>
         (\<exists>r. Remove num s n = Some r \<and> snd r = snd s) \<and> snd (Reset s) = snd s"
proof (intro conjI)
  show "\<exists>s'. Put num s n = Some s' \<and> snd s' = snd s \<and>
            GetOldPos (snd s') n = GetOldPos (snd s) n \<and> cellSize (fst s') = cellSize (fst s) \<and>
            (\<forall>k. k \<noteq> key \<longrightarrow> buckets (fst s') k = buckets (fst s) k) \<and> isEntry s' key n"
    using Put_result [OF assms] by (simp add: isEntry_def Add_mem)
  show "\<exists>r. Remove num s n = Some r \<and> snd r = snd s"
    using Remove_result [OF assms] by (simp split: option.splits)
  show "snd (Reset s) = snd s" by (simp add: Reset_def)
qed

theorem Put_frame_witness:
  "calculatePositionKey floatNumber (fst (NewSpatialHash 100, testHeap))
     (GetX (snd (NewSpatialHash 100, testHeap)) 1) (GetY (snd (NewSpatialHash 100, testHeap)) 1) =
     Some 65537 \<and>
   Put floatNumber (NewSpatialHash 100, testHeap) 1 = Some testIndex \<and>
   snd testIndex = testHeap \<and> GetOldPos (snd testIndex) 1 = GetOldPos testHeap 1 \<and>
   buckets (fst testIndex) 0 = buckets (fst (NewSpatialHash 100 :: (nat, real) SpatialHash, testHeap)) 0 \<and>
   isEntry testIndex 65537 1"
proof -
  have k: "calculatePositionKey floatNumber (fst (NewSpatialHash 100, testHeap))
     (GetX (snd (NewSpatialHash 100, testHeap)) 1) (GetY (snd (NewSpatialHash 100, testHeap)) 1) =
     Some 65537"
    by (simp add: calculatePositionKey_float NewSpatialHash_def testHeap_def GetX_def GetY_def
        pairPoint_def)
  have p: "Put floatNumber (NewSpatialHash 100, testHeap) 1 = Some testIndex"
    by (simp add: Put_def calculatePositionKey_float NewSpatialHash_def testIndex_def testHeap_def
        Add_def GetId_def GetX_def GetY_def getOrCreate_def newBucket_def pairPoint_def)
  from Put_frame [OF k, THEN conjunct1] obtain s' where
    s': "Put floatNumber (NewSpatialHash 100, testHeap) 1 = Some s'"
      "snd s' = snd (NewSpatialHash 100 :: (nat, real) SpatialHash, testHeap)"
      "GetOldPos (snd s') 1 =
         GetOldPos (snd (NewSpatialHash 100 :: (nat, real) SpatialHash, testHeap)) 1"
      "\<forall>k. k \<noteq> 65537 \<longrightarrow> buckets (fst s') k =
         buckets (fst (NewSpatialHash 100 :: (nat, real) SpatialHash, testHeap)) k"
      "isEntry s' 65537 1"
    by blast
  from s'(1) p have "s' = testIndex" by simp
  with s' k p show ?thesis by (simp add: NewSpatialHash_def)
qed



text \<open>
  C3, as amended. After \<open>Update(n)\<close> the cached previous position of \<open>n\<close> is the
  position of \<open>n\<close> at the call, from which \<open>Update\<close> computed \<open>key\<close>; and \<open>n\<close> is
  then an entry of the bucket of \<open>key\<close>, provided that \<open>Update\<close> found the cell changed
  or that \<open>n\<close> was, before the call, an entry of the bucket of the cell of its cached
  previous position. \<open>Put(n)\<close> makes \<open>n\<close> an entry of the bucket of \<open>key\<close> and does not
  write the cache.
\<close>

theorem Update_cache:
  assumes "calculatePositionKey num (fst s) (GetX (snd s) n) (GetY (snd s) n) = Some key"
    and "calculatePositionKey num (fst s) (fst (GetOldPos (snd s) n)) (snd (GetOldPos (snd s) n)) =
           Some oldKey"
  shows "(\<exists>s'. Update num s n = Some s' \<and>
            GetOldPos (snd s') n = (GetX (snd s) n, GetY (snd s) n) \<and>
            GetX (snd s') n = GetX (snd s) n \<and> GetY (snd s') n = GetY (snd s) n \<and>
            calculatePositionKey num (fst s') (fst (GetOldPos (snd s') n))
              (snd (GetOldPos (snd s') n)) = Some key \<and>
            (oldKey \<noteq> key \<or> isEntry s oldKey n \<longrightarrow> isEntry s' key n)) \<and>
         (\<exists>p. Put num s n = Some p \<and> GetOldPos (snd p) n = GetOldPos (snd s) n \<and>
            isEntry p key n)"
proof
  let ?h' = "SetOldPos (snd s) n (GetX (snd s) n) (GetY (snd s) n)"
  let ?sh' = "if oldKey \<noteq> key
     then (fst s)\<lparr>buckets := migrate (snd s) (buckets (fst s)) oldKey key n\<rparr> else fst s"
  have u: "Update num s n = Some (?sh', ?h')" by (rule Update_result [OF assms])
  have old: "GetOldPos ?h' n = (GetX (snd s) n, GetY (snd s) n)"
    by (simp add: SetOldPos_def GetOldPos_def)
  have pos: "GetX ?h' n = GetX (snd s) n" "GetY ?h' n = GetY (snd s) n" "GetId ?h' n = GetId (snd s) n"
    by (simp_all add: SetOldPos_def GetX_def GetY_def GetId_def)
  have "calculatePositionKey num ?sh' = calculatePositionKey num (fst s)"
    by (rule calculatePositionKey_cong) simp
  with old assms(1) have k: "calculatePositionKey num ?sh' (fst (GetOldPos ?h' n))
      (snd (GetOldPos ?h' n)) = Some key" by simp
  have e: "isEntry (?sh', ?h') key n" if "oldKey \<noteq> key \<or> isEntry s oldKey n"
  proof (cases "oldKey = key")
    case True
    with that show ?thesis by (simp add: isEntry_def pos split: option.splits)
  next
    case False
    then show ?thesis by (simp add: isEntry_def pos migrate_key Add_mem)
  qed
  from u old pos k e
  show "\<exists>s'. Update num s n = Some s' \<and>
            GetOldPos (snd s') n = (GetX (snd s) n, GetY (snd s) n) \<and>
            GetX (snd s') n = GetX (snd s) n \<and> GetY (snd s') n = GetY (snd s) n \<and>
            calculatePositionKey num (fst s') (fst (GetOldPos (snd s') n))
              (snd (GetOldPos (snd s') n)) = Some key \<and>
            (oldKey \<noteq> key \<or> isEntry s oldKey n \<longrightarrow> isEntry s' key n)"
    by simp
next
  show "\<exists>p. Put num s n = Some p \<and> GetOldPos (snd p) n = GetOldPos (snd s) n \<and> isEntry p key n"
    using Put_result [OF assms(1)] by (simp add: isEntry_def Add_mem)
qed


theorem Update_cache_witness:
  "calculatePositionKey floatNumber (fst movedIndex) (GetX (snd movedIndex) 1)
     (GetY (snd movedIndex) 1) = Some 196611 \<and>
   calculatePositionKey floatNumber (fst movedIndex) (fst (GetOldPos (snd movedIndex) 1))
     (snd (GetOldPos (snd movedIndex) 1)) = Some 65537 \<and>
   Update floatNumber movedIndex 1 = Some migratedIndex \<and>
   GetOldPos (snd migratedIndex) 1 = (GetX (snd movedIndex) 1, GetY (snd movedIndex) 1) \<and>
   isEntry migratedIndex 196611 1 \<and>
   calculatePositionKey floatNumber (fst floatIndex) (GetX (snd floatIndex) 1)
     (GetY (snd floatIndex) 1) = Some 65537 \<and>
   calculatePositionKey floatNumber (fst floatIndex) (fst (GetOldPos (snd floatIndex) 1))
     (snd (GetOldPos (snd floatIndex) 1)) = Some 65537 \<and>
   isEntry floatIndex 65537 1 \<and>
   (\<exists>s'. Update floatNumber floatIndex 1 = Some s' \<and>
      GetOldPos (snd s') 1 = (GetX (snd floatIndex) 1, GetY (snd floatIndex) 1) \<and>
      isEntry s' 65537 1)"
proof -
  from Update_cache [OF movedIndex_keys] Update_movedIndex
  have a: "GetOldPos (snd migratedIndex) 1 = (GetX (snd movedIndex) 1, GetY (snd movedIndex) 1) \<and>
        isEntry migratedIndex 196611 1"
    by (elim exE conjE) simp
  from Update_cache [OF floatIndex_keys, THEN conjunct1] isEntry_floatIndex
  have b: "\<exists>s'. Update floatNumber floatIndex 1 = Some s' \<and>
      GetOldPos (snd s') 1 = (GetX (snd floatIndex) 1, GetY (snd floatIndex) 1) \<and>
      isEntry s' 65537 1"
    by (elim exE conjE) (simp only: simp_thms ex_simps, simp)
  from a b movedIndex_keys floatIndex_keys isEntry_floatIndex Update_movedIndex
  show ?thesis by (intro conjI) simp_all
qed

text \<open>
  C3, as stated, fails for \<open>Put\<close> and for \<open>Update\<close>. The node of
  \<open>TestSpatialHashUpdate\<close> is at \<open>(100, 100)\<close> with the cached previous position
  \<open>(0, 0)\<close>. After \<open>Put\<close> it is an entry of the bucket of the key 65537 of
  \<open>(100, 100)\<close>, and its cached previous position is still \<open>(0, 0)\<close>, whose key is 0.
  When it then moves to \<open>(50, 50)\<close>, \<open>Update\<close> finds the cell of the cache unchanged
  and touches no bucket: the cache becomes \<open>(50, 50)\<close>, whose key 0 has no bucket, and
  the node is an entry of the bucket of 65537 alone.
\<close>

theorem cache_counterexample:
  "Put floatNumber (NewSpatialHash 100, testHeap) 1 = Some testIndex \<and>
   isEntry testIndex 65537 1 \<and>
   calculatePositionKey floatNumber (fst testIndex) 100 100 = Some 65537 \<and>
   (GetX (snd testIndex) 1, GetY (snd testIndex) 1) = (100, 100) \<and>
   GetOldPos (snd testIndex) 1 = (0, 0) \<and>
   calculatePositionKey floatNumber (fst testIndex) 0 0 = Some 0 \<and>
   run floatNumber (NewSpatialHash 100, testHeap) [PutCall 1, MoveNode 1 50 50, UpdateCall 1] =
     Some staleIndex \<and>
   GetOldPos (snd staleIndex) 1 = (50, 50) \<and>
   calculatePositionKey floatNumber (fst staleIndex) 50 50 = Some 0 \<and>
   \<not> isEntry staleIndex 0 1 \<and> isEntry staleIndex 65537 1"
proof (intro conjI)
  show "run floatNumber (NewSpatialHash 100, testHeap) [PutCall 1, MoveNode 1 50 50, UpdateCall 1] =
     Some staleIndex"
    by (simp add: Put_def Update_def calculatePositionKey_float NewSpatialHash_def testHeap_def
      staleIndex_def migrate_def Delete_def Add_def getOrCreate_def newBucket_def GetId_def
      GetX_def GetY_def GetOldPos_def SetOldPos_def pairPoint_def fun_upd_twist)
qed (simp_all add: Put_def calculatePositionKey_float NewSpatialHash_def testIndex_def testHeap_def
      staleIndex_def isEntry_def Add_def GetId_def GetX_def GetY_def GetOldPos_def getOrCreate_def
      newBucket_def pairPoint_def)


text \<open>
  C8, as amended. After \<open>Reset()\<close>, as long as no call adds a node to a bucket (no \<open>Put\<close>,
  and no \<open>Update\<close> of a node whose cell differs from the cell of its cached previous
  position), every call succeeds and every \<open>Search\<close> and every \<open>QueryRect\<close>, at any
  location and of any extent, returns the empty sequence.
\<close>

theorem Reset_empties:
  fixes si :: "('a, int) state" and sf :: "('b, real) state"
  shows "(0 < cellSize (fst si) \<and> quiet intNumber (Reset si) csi \<longrightarrow>
            (\<exists>s'. run intNumber (Reset si) csi = Some s' \<and>
               (\<forall>x y r. Search intNumber s' x y r = Some []) \<and>
               (\<forall>x y w h. QueryRect intNumber s' x y w h = Some []))) \<and>
         (0 < cellSize (fst sf) \<and> quiet floatNumber (Reset sf) csf \<longrightarrow>
            (\<exists>s'. run floatNumber (Reset sf) csf = Some s' \<and>
               (\<forall>x y r. Search floatNumber s' x y r = Some []) \<and>
               (\<forall>x y w h. QueryRect floatNumber s' x y w h = Some [])))"
proof (intro conjI impI)
  assume a: "0 < cellSize (fst si) \<and> quiet intNumber (Reset si) csi"
  show "\<exists>s'. run intNumber (Reset si) csi = Some s' \<and>
               (\<forall>x y r. Search intNumber s' x y r = Some []) \<and>
               (\<forall>x y w h. QueryRect intNumber s' x y w h = Some [])"
  proof (rule after_Reset_gen)
    show "quo intNumber b (cellSize (fst si)) \<noteq> None" for b using a by (simp add: quo_int_total)
    show "quo intNumber b 2 \<noteq> None" for b by (simp add: quo_int_total)
    show "quiet intNumber (Reset si) csi" using a by simp
  qed
next
  assume a: "0 < cellSize (fst sf) \<and> quiet floatNumber (Reset sf) csf"
  show "\<exists>s'. run floatNumber (Reset sf) csf = Some s' \<and>
               (\<forall>x y r. Search floatNumber s' x y r = Some []) \<and>
               (\<forall>x y w h. QueryRect floatNumber s' x y w h = Some [])"
  proof (rule after_Reset_gen)
    show "quo floatNumber b (cellSize (fst sf)) \<noteq> None" for b using a by (simp add: quo_float_total)
    show "quo floatNumber b 2 \<noteq> None" for b by (simp add: quo_float_total)
    show "quiet floatNumber (Reset sf) csf" using a by simp
  qed
qed

theorem Reset_empties_witness:
  "0 < cellSize (fst intIndex) \<and>
   quiet intNumber (Reset intIndex) [RemoveCall 1, MoveNode 2 25 35, UpdateCall 2] \<and>
   (\<exists>s'. run intNumber (Reset intIndex) [RemoveCall 1, MoveNode 2 25 35, UpdateCall 2] = Some s' \<and>
      Search intNumber s' 20 30 100 = Some [] \<and> QueryRect intNumber s' 20 30 100 100 = Some []) \<and>
   0 < cellSize (fst floatIndex) \<and>
   quiet floatNumber (Reset floatIndex) [RemoveCall 3, UpdateCall 1] \<and>
   (\<exists>s'. run floatNumber (Reset floatIndex) [RemoveCall 3, UpdateCall 1] = Some s' \<and>
      Search floatNumber s' 100 100 50 = Some [] \<and> QueryRect floatNumber s' 100 100 50 50 = Some [])"
proof -
  note t = Reset_empties [of intIndex "[RemoveCall 1, MoveNode 2 25 35, UpdateCall 2]"
      floatIndex "[RemoveCall 3, UpdateCall 1]"]
  have ci: "0 < cellSize (fst intIndex)" and cf: "0 < cellSize (fst floatIndex)"
    by (simp_all add: intIndex_def floatIndex_def)
  from t ci quiet_intIndex have
    "\<exists>s'. run intNumber (Reset intIndex) [RemoveCall 1, MoveNode 2 25 35, UpdateCall 2] = Some s' \<and>
      Search intNumber s' 20 30 100 = Some [] \<and> QueryRect intNumber s' 20 30 100 100 = Some []"
    by blast
  moreover from t cf quiet_floatIndex have
    "\<exists>s'. run floatNumber (Reset floatIndex) [RemoveCall 3, UpdateCall 1] = Some s' \<and>
      Search floatNumber s' 100 100 50 = Some [] \<and> QueryRect floatNumber s' 100 100 50 50 = Some []"
    by blast
  ultimately show ?thesis using ci cf quiet_intIndex quiet_floatIndex by blast
qed

text \<open>
  C8, as stated, fails: after \<open>Reset()\<close> of an index whose node 1 has moved from the cell
  of \<open>(100, 100)\<close> to \<open>(300, 300)\<close>, the call \<open>Update(1)\<close>, which is no \<open>Put\<close>, adds
  the node to a bucket, and \<open>Search\<close> and \<open>QueryRect\<close> at \<open>(300, 300)\<close> return it.
\<close>

theorem Reset_Update_counterexample:
  "noPut [UpdateCall 1 :: real call] \<and>
   run floatNumber (Reset movedIndex) [UpdateCall 1] = Some updatedIndex \<and>
   Search floatNumber updatedIndex 300 300 50 = Some [1] \<and>
   QueryRect floatNumber updatedIndex 300 300 10 10 = Some [1]"
proof (intro conjI)
  show "noPut [UpdateCall 1 :: real call]" by simp
  show "run floatNumber (Reset movedIndex) [UpdateCall 1] = Some updatedIndex"
    by (simp add: Reset_def Update_def calculatePositionKey_float movedIndex_def updatedIndex_def
      movedHeap_def migrate_def Delete_def Add_def getOrCreate_def newBucket_def GetId_def
      GetX_def GetY_def GetOldPos_def SetOldPos_def pairPoint_def)
  show "Search floatNumber updatedIndex 300 300 50 = Some [1]"
    by (simp add: Search_def cellIndex_float updatedIndex_def scanCells_def ForEach_def
      upto.simps pairPoint_def GetX_def GetY_def)
  show "QueryRect floatNumber updatedIndex 300 300 10 10 = Some [1]"
    by (simp add: QueryRect_def cellIndex_float quo_float updatedIndex_def scanCells_def
      ForEach_def upto.simps pairPoint_def)
qed

text \<open>
  C9. With a positive cell size, \<open>Remove(n)\<close> always returns. It leaves the heap, the cell
  size and the set of keys that have a bucket as they are, and in every bucket the entries
  under identifiers other than the one of \<open>n\<close> are exactly those from before the call.
  When the bucket of the current position of \<open>n\<close> has no entry under the identifier of
  \<open>n\<close> (or there is no such bucket), the state is unchanged; in particular a second
  \<open>Remove(n)\<close> changes nothing.
\<close>

theorem Remove_absent:
  fixes si :: "('a, int) state" and sf :: "('b, real) state"
  shows "(0 < cellSize (fst si) \<longrightarrow>
           (\<exists>key s'. calculatePositionKey intNumber (fst si) (GetX (snd si) ni) (GetY (snd si) ni) =
                       Some key \<and>
              Remove intNumber si ni = Some s' \<and> snd s' = snd si \<and>
              cellSize (fst s') = cellSize (fst si) \<and>
              dom (buckets (fst s')) = dom (buckets (fst si)) \<and>
              (\<forall>k i m. i \<noteq> GetId (snd si) ni \<longrightarrow>
                 ((i, m) \<in> members s' k \<longleftrightarrow> (i, m) \<in> members si k)) \<and>
              (GetId (snd si) ni \<notin> fst ` members si key \<longrightarrow> s' = si) \<and>
              Remove intNumber s' ni = Some s')) \<and>
         (0 < cellSize (fst sf) \<longrightarrow>
           (\<exists>key s'. calculatePositionKey floatNumber (fst sf) (GetX (snd sf) nf) (GetY (snd sf) nf) =
                       Some key \<and>
              Remove floatNumber sf nf = Some s' \<and> snd s' = snd sf \<and>
              cellSize (fst s') = cellSize (fst sf) \<and>
              dom (buckets (fst s')) = dom (buckets (fst sf)) \<and>
              (\<forall>k i m. i \<noteq> GetId (snd sf) nf \<longrightarrow>
                 ((i, m) \<in> members s' k \<longleftrightarrow> (i, m) \<in> members sf k)) \<and>
              (GetId (snd sf) nf \<notin> fst ` members sf key \<longrightarrow> s' = sf) \<and>
              Remove floatNumber s' nf = Some s'))"
proof (intro conjI impI)
  assume "0 < cellSize (fst si)"
  then have k: "calculatePositionKey intNumber (fst si) (GetX (snd si) ni) (GetY (snd si) ni) =
      Some (pairPoint (truncDiv (GetX (snd si) ni) (cellSize (fst si)))
                      (truncDiv (GetY (snd si) ni) (cellSize (fst si))))"
    by (simp add: calculatePositionKey_int)
  from Remove_gen [OF k] k
  show "\<exists>key s'. calculatePositionKey intNumber (fst si) (GetX (snd si) ni) (GetY (snd si) ni) =
                       Some key \<and>
              Remove intNumber si ni = Some s' \<and> snd s' = snd si \<and>
              cellSize (fst s') = cellSize (fst si) \<and>
              dom (buckets (fst s')) = dom (buckets (fst si)) \<and>
              (\<forall>k i m. i \<noteq> GetId (snd si) ni \<longrightarrow>
                 ((i, m) \<in> members s' k \<longleftrightarrow> (i, m) \<in> members si k)) \<and>
              (GetId (snd si) ni \<notin> fst ` members si key \<longrightarrow> s' = si) \<and>
              Remove intNumber s' ni = Some s'"
    by blast
next
  assume "0 < cellSize (fst sf)"
  then have k: "calculatePositionKey floatNumber (fst sf) (GetX (snd sf) nf) (GetY (snd sf) nf) =
      Some (pairPoint \<lfloor>GetX (snd sf) nf / cellSize (fst sf)\<rfloor> \<lfloor>GetY (snd sf) nf / cellSize (fst sf)\<rfloor>)"
    by (simp add: calculatePositionKey_float)
  from Remove_gen [OF k] k
  show "\<exists>key s'. calculatePositionKey floatNumber (fst sf) (GetX (snd sf) nf) (GetY (snd sf) nf) =
                       Some key \<and>
              Remove floatNumber sf nf = Some s' \<and> snd s' = snd sf \<and>
              cellSize (fst s') = cellSize (fst sf) \<and>
              dom (buckets (fst s')) = dom (buckets (fst sf)) \<and>
              (\<forall>k i m. i \<noteq> GetId (snd sf) nf \<longrightarrow>
                 ((i, m) \<in> members s' k \<longleftrightarrow> (i, m) \<in> members sf k)) \<and>
              (GetId (snd sf) nf \<notin> fst ` members sf key \<longrightarrow> s' = sf) \<and>
              Remove floatNumber s' nf = Some s'"
    by blast
qed

theorem Remove_absent_witness:
  "0 < cellSize (fst intIndex) \<and>
   calculatePositionKey intNumber (fst intIndex) (GetX (snd intIndex) 4) (GetY (snd intIndex) 4) =
     Some 0 \<and>
   GetId (snd intIndex) 4 \<notin> fst ` members intIndex 0 \<and>
   Remove intNumber intIndex 4 = Some intIndex \<and>
   0 < cellSize (fst floatIndex) \<and>
   calculatePositionKey floatNumber (fst floatIndex) (GetX (snd floatIndex) 4)
     (GetY (snd floatIndex) 4) = Some 0 \<and>
   GetId (snd floatIndex) 4 \<notin> fst ` members floatIndex 0 \<and>
   Remove floatNumber floatIndex 4 = Some floatIndex"
proof -
  note t = Remove_absent [of intIndex 4 floatIndex 4]
  have ci: "0 < cellSize (fst intIndex)" and cf: "0 < cellSize (fst floatIndex)"
    by (simp_all add: intIndex_def floatIndex_def)
  have ki: "calculatePositionKey intNumber (fst intIndex) (GetX (snd intIndex) 4)
      (GetY (snd intIndex) 4) = Some 0"
    by (simp add: calculatePositionKey_int intIndex_def intHeap_def GetX_def GetY_def truncDiv_def
        pairPoint_def)
  have kf: "calculatePositionKey floatNumber (fst floatIndex) (GetX (snd floatIndex) 4)
      (GetY (snd floatIndex) 4) = Some 0"
    by (simp add: calculatePositionKey_float floatIndex_def floatHeap_def GetX_def GetY_def
        pairPoint_def)
  have ai: "GetId (snd intIndex) 4 \<notin> fst ` members intIndex 0"
    by (simp add: members_def intIndex_def intHeap_def GetId_def)
  have af: "GetId (snd floatIndex) 4 \<notin> fst ` members floatIndex 0"
    by (simp add: members_def floatIndex_def floatHeap_def GetId_def)
  from t ci obtain key s' where
    "calculatePositionKey intNumber (fst intIndex) (GetX (snd intIndex) 4)
       (GetY (snd intIndex) 4) = Some key"
    "Remove intNumber intIndex 4 = Some s'"
    "GetId (snd intIndex) 4 \<notin> fst ` members intIndex key \<longrightarrow> s' = intIndex"
    by blast
  with ki ai have ri: "Remove intNumber intIndex 4 = Some intIndex" by simp
  from t cf obtain key s' where
    "calculatePositionKey floatNumber (fst floatIndex) (GetX (snd floatIndex) 4)
       (GetY (snd floatIndex) 4) = Some key"
    "Remove floatNumber floatIndex 4 = Some s'"
    "GetId (snd floatIndex) 4 \<notin> fst ` members floatIndex key \<longrightarrow> s' = floatIndex"
    by blast
  with kf af have rf: "Remove floatNumber floatIndex 4 = Some floatIndex" by simp
  from ci ki ai ri cf kf af rf show ?thesis by (intro conjI)
qed

text \<open>
  C5 fails on the code for an integer coordinate type: the quotient \<open>coord / cellSize\<close> is
  taken in \<open>N\<close>, where Go truncates it towards zero, before \<open>math.Floor\<close> sees it. For
  the coordinate \<open>- 1\<close> and the cell size 100 the index computed is 0, and the floor of
  the real quotient is \<open>- 1\<close>, which is what a floating-point \<open>N\<close> gives.
\<close>

theorem cellIndex_int_truncates:
  "cellIndex intNumber (- 1) 100 = Some 0 \<and>
   \<lfloor>real_of_int (- 1) / real_of_int 100\<rfloor> = - 1 \<and>
   cellIndex floatNumber (- 1) 100 = Some (- 1)"
  by (simp add: cellIndex_int cellIndex_float truncDiv_def)

text \<open>
  C6 fails on the code, by the defect of C1: \<open>x - halfWidth\<close> wraps around for an
  unsigned \<open>N\<close>. With \<open>N = uint32\<close> and cell size 100, the node at \<open>(3, 3)\<close> is in the
  rectangle of extent 20 by 20 centred at \<open>(5, 5)\<close>, and \<open>QueryRect\<close> visits no cell and
  returns nothing. With an integer \<open>N\<close> the half extent \<open>width / N(2)\<close> is truncated too:
  the rectangle of width 25 centred at \<open>x = 112\<close> reaches from \<open>99.5\<close> to \<open>124.5\<close> and
  overlaps cell 0 (the point \<open>99.75\<close> is in both), but the range computed is cell 1 alone,
  and the node at \<open>(99, 0)\<close>, found in cell 0, is not returned.
\<close>

theorem QueryRect_unsigned_wraps:
  "calculatePositionKey uint32Number (fst uintIndex) (GetX (snd uintIndex) 1)
     (GetY (snd uintIndex) 1) = Some 0 \<and>
   isEntry uintIndex 0 1 \<and>
   withinRect uint32Number (snd uintIndex) 5 5 20 20 1 \<and>
   quo uint32Number 20 2 = Some 10 \<and>
   cellIndex uint32Number (5 - 10) 100 = Some 42949672 \<and>
   cellIndex uint32Number (5 + 10) 100 = Some 0 \<and>
   QueryRect uint32Number uintIndex 5 5 20 20 = Some [] \<and>
   PutAll intNumber (NewSpatialHash 100, edgeHeap) [1] = Some edgeIndex \<and>
   1 \<in> cellNodes (buckets (fst edgeIndex)) 0 0 \<and>
   2 * \<bar>(399 / 4 :: real) - 112\<bar> \<le> 25 \<and> \<lfloor>(399 / 4 :: real) / 100\<rfloor> = 0 \<and>
   QueryRect intNumber edgeIndex 112 0 25 1 = Some []"
proof (intro conjI)
  show "calculatePositionKey uint32Number (fst uintIndex) (GetX (snd uintIndex) 1)
     (GetY (snd uintIndex) 1) = Some 0"
    by (rule uintIndex_key)
  show "isEntry uintIndex 0 1" by (rule isEntry_uintIndex)
  show "withinRect uint32Number (snd uintIndex) 5 5 20 20 1"
    by (simp add: withinRect_def uint32Number_def uintIndex_def uintHeap_def GetX_def GetY_def)
  show "quo uint32Number 20 2 = Some 10" by (simp add: quo_uint32)
  show "cellIndex uint32Number (5 - 10) 100 = Some 42949672" by (simp add: cellIndex_uint32)
  show "cellIndex uint32Number (5 + 10) 100 = Some 0" by (simp add: cellIndex_uint32)
  show "QueryRect uint32Number uintIndex 5 5 20 20 = Some []"
    by (simp add: QueryRect_def cellIndex_uint32 quo_uint32 uintIndex_def scanCells_def upto.simps)
  show "PutAll intNumber (NewSpatialHash 100, edgeHeap) [1] = Some edgeIndex"
    by (rule edgeIndex_built)
  show "1 \<in> cellNodes (buckets (fst edgeIndex)) 0 0"
    by (simp add: cellNodes_def edgeIndex_def pairPoint_def)
  show "2 * \<bar>(399 / 4 :: real) - 112\<bar> \<le> 25" by simp
  show "\<lfloor>(399 / 4 :: real) / 100\<rfloor> = 0" by simp
  show "QueryRect intNumber edgeIndex 112 0 25 1 = Some []" by (rule QueryRect_edgeIndex)
qed

text \<open>
  C2 fails on the code: the get-or-create path of \<open>Put\<close> is a \<open>Load\<close> followed by a
  separate \<open>Store\<close>. Two goroutines put the nodes 1 and 2, of distinct identifiers, into
  the cell of key 65537, which has no bucket yet. In the schedule where both load before
  either stores, two buckets are created, the second \<open>Store\<close> replaces the first bucket,
  and after both calls have returned the published bucket holds node 2 only: the insertion
  of node 1 is lost. When the calls run one after the other, one bucket is created and it
  holds both nodes.
\<close>

theorem Put_race_loses_insertion:
  "enterPut floatNumber (NewSpatialHash 100) floatHeap 1 = Some (AtLoad 1 65537) \<and>
   enterPut floatNumber (NewSpatialHash 100) floatHeap 2 = Some (AtLoad 2 65537) \<and>
   (case interleave floatHeap [First, Second, First, First, Second, Second]
           (emptyShared, AtLoad 1 65537, AtLoad 2 65537) of
      (m, p, q) \<Rightarrow> p = Returned \<and> q = Returned \<and> published m 65537 = Some [(2, 2)] \<and>
        nextAddr m = 2) \<and>
   (case interleave floatHeap [First, First, First, Second, Second, Second]
           (emptyShared, AtLoad 1 65537, AtLoad 2 65537) of
      (m, p, q) \<Rightarrow> p = Returned \<and> q = Returned \<and> published m 65537 = Some [(1, 1), (2, 2)] \<and>
        nextAddr m = 1)"
  by (simp add: enterPut_def calculatePositionKey_float NewSpatialHash_def floatHeap_def GetX_def GetY_def GetId_def
      pairPoint_def emptyShared_def published_def Add_def newBucket_def)

end
